theory Spec2Isabelle
  imports Main
begin

section \<open>Bytes, strings and Go values\<close>

text \<open>
  Go's \<^verbatim>\<open>string\<close> and \<^verbatim>\<open>[]byte\<close> are both byte sequences; they are modelled
  as \<^typ>\<open>string\<close> (a list of 8-bit characters). A \<^verbatim>\<open>nil\<close> byte slice that the code
  tells apart from an empty one (the result of \<^verbatim>\<open>Bucket.Get\<close>) is an \<^typ>\<open>string option\<close>.
\<close>

type_synonym bytes = string

text \<open>Byte-wise lexicographic order: \<^verbatim>\<open>bytes.Compare(a, b) < 0\<close>, the order of
  \<^verbatim>\<open>sort.Strings\<close> and of the keys of a bolt bucket.\<close>

fun bytes_lt :: "bytes \<Rightarrow> bytes \<Rightarrow> bool" where
  "bytes_lt [] [] = False"
| "bytes_lt [] (y # ys) = True"
| "bytes_lt (x # xs) [] = False"
| "bytes_lt (x # xs) (y # ys) =
     ((of_char x :: nat) < of_char y \<or> (x = y \<and> bytes_lt xs ys))"

text \<open>A container keyed by byte strings and kept in key order (a Go map as
  \<^verbatim>\<open>json.Marshal\<close> prints it, a bolt bucket as its cursor walks it, a directory as
  \<^verbatim>\<open>filepath.Walk\<close> lists it). \<open>ins k v\<close> stores \<open>v\<close> under \<open>k\<close>, replacing the
  value already there.\<close>

fun ins :: "bytes \<Rightarrow> 'v \<Rightarrow> (bytes \<times> 'v) list \<Rightarrow> (bytes \<times> 'v) list" where
  "ins k v [] = [(k, v)]"
| "ins k v ((k', v') # r) =
     (if k = k' then (k, v) # r
      else if bytes_lt k k' then (k, v) # (k', v') # r
      else (k', v') # ins k v r)"

text \<open>\<^verbatim>\<open>bytes.Contains(s, sub)\<close>.\<close>

fun has_prefix :: "bytes \<Rightarrow> bytes \<Rightarrow> bool" where
  "has_prefix s [] = True"
| "has_prefix [] (p # ps) = False"
| "has_prefix (c # cs) (p # ps) = (c = p \<and> has_prefix cs ps)"

fun bytes_Contains :: "bytes \<Rightarrow> bytes \<Rightarrow> bool" where
  "bytes_Contains [] sub = (sub = [])"
| "bytes_Contains (c # cs) sub = (has_prefix (c # cs) sub \<or> bytes_Contains cs sub)"

text \<open>Go's \<^verbatim>\<open>int\<close> is 64 bits wide and wraps; \<open>int64\<close> is the value an \<^verbatim>\<open>int\<close>
  holds after an arithmetic result \<open>i\<close>.\<close>

definition int64 :: "int \<Rightarrow> int" where
  "int64 i = (i + 2 ^ 63) mod 2 ^ 64 - 2 ^ 63"

definition in_int64 :: "int \<Rightarrow> bool" where
  "in_int64 i \<longleftrightarrow> - (2 ^ 63) \<le> i \<and> i < 2 ^ 63"

text \<open>The decimal form of an integer: \<^verbatim>\<open>%d\<close> of \<^verbatim>\<open>fmt.Sprintf\<close>, and how
  \<^verbatim>\<open>json.Marshal\<close> prints an \<^verbatim>\<open>int\<close>.\<close>

fun digits :: "nat \<Rightarrow> string" where
  "digits n =
     (if n < 10 then [char_of (48 + n)] else digits (n div 10) @ [char_of (48 + n mod 10)])"

definition show_int :: "int \<Rightarrow> string" where
  "show_int i = (if i < 0 then CHR ''-'' # digits (nat (- i)) else digits (nat i))"

fun is_digit :: "char \<Rightarrow> bool" where
  "is_digit c \<longleftrightarrow> (48::nat) \<le> of_char c \<and> of_char c \<le> (57::nat)"

fun digit_val :: "char \<Rightarrow> nat" where
  "digit_val c = of_char c - 48"

text \<open>The value of a run of decimal digits.\<close>

fun dec_acc :: "nat \<Rightarrow> string \<Rightarrow> nat" where
  "dec_acc a [] = a"
| "dec_acc a (c # cs) = dec_acc (10 * a + digit_val c) cs"

section \<open>The functions of encoding/json that the store calls\<close>

text \<open>
  The store hands \<^verbatim>\<open>Meta\<close> to \<^verbatim>\<open>json.Unmarshal\<close> with a
  \<^verbatim>\<open>map[string]interface{}\<close> or a \<^verbatim>\<open>struct{ Revision int }\<close> as target, and prints
  maps with \<^verbatim>\<open>json.Marshal\<close>. The library is not part of the repository; it is
  modelled here on this fragment of its behaviour:
  \<^item> the whole JSON grammar is recognised (insignificant white space, the three
    literals, numbers with fraction and exponent, strings with every escape, arrays,
    objects); anything else is a \<open>SyntaxError\<close>;
  \<^item> a number read into an \<^verbatim>\<open>interface{}\<close> is an \<^verbatim>\<open>UnmarshalTypeError\<close> when it
    is outside the range of \<^verbatim>\<open>float64\<close>, and otherwise keeps its literal (Go holds a
    \<^verbatim>\<open>float64\<close> and prints it again in its shortest form; the two agree on integers
    of ordinary size written without sign of zero, fraction or exponent);
  \<^item> a \<^verbatim>\<open>\uXXXX\<close> escape is decoded to UTF-8 for code points outside the surrogate
    range, and each surrogate half to U+FFFD (Go joins the two halves of a valid pair
    into one character); bytes from \<open>0x80\<close> up pass unchanged in both directions (as
    Go does for valid UTF-8 other than U+2028 and U+2029); of the control characters
    \<^verbatim>\<open>json.Marshal\<close> gives newline, carriage return and tab their short escapes;
  \<^item> a Go map is a key-sorted list without repeated keys: \<^verbatim>\<open>json.Marshal\<close> prints
    the keys of a map in \<^verbatim>\<open>sort.Strings\<close> order, and in a JSON object with a repeated
    key the last member wins;
  \<^item> the field \<^verbatim>\<open>Revision\<close> is matched against member names without regard to
    ASCII case.
\<close>

datatype jvalue =
    JNull
  | JBool bool
  | JNumber string
  | JInt int
  | JString string
  | JArray "jvalue list"
  | JObject "(string \<times> jvalue) list"

type_synonym gomap = "(string \<times> jvalue) list"

text \<open>\<^verbatim>\<open>js[k] = v\<close> on a map that is not nil.\<close>

definition map_assign :: "string \<Rightarrow> jvalue \<Rightarrow> gomap \<Rightarrow> gomap" where
  "map_assign k v m = ins k v m"

subsection \<open>Printing\<close>

definition hex_digit :: "nat \<Rightarrow> char" where
  "hex_digit n = (if n < 10 then char_of (48 + n) else char_of (87 + n))"

text \<open>One byte of a string as \<^verbatim>\<open>json.Marshal\<close> writes it: the quote and the backslash get a backslash, newline, carriage
  return and tab their short escapes, every other control character and
  \<^verbatim>\<open><\<close>, \<^verbatim>\<open>>\<close>, \<^verbatim>\<open>&\<close> six characters \<^verbatim>\<open>\u00XX\<close>.\<close>

definition encode_byte :: "char \<Rightarrow> string" where
  "encode_byte c =
     (let n = (of_char c :: nat) in
      if n = 0x22 then [CHR 0x5C, CHR 0x22]
      else if n = 0x5C then [CHR 0x5C, CHR 0x5C]
      else if n = 0x0A then [CHR 0x5C, CHR ''n'']
      else if n = 0x0D then [CHR 0x5C, CHR ''r'']
      else if n = 0x09 then [CHR 0x5C, CHR ''t'']
      else if n < 0x20 \<or> n = 0x3C \<or> n = 0x3E \<or> n = 0x26
        then [CHR 0x5C, CHR ''u'', CHR ''0'', CHR ''0'', hex_digit (n div 16), hex_digit (n mod 16)]
      else [c])"

definition encode_string :: "string \<Rightarrow> string" where
  "encode_string s = CHR 0x22 # concat (map encode_byte s) @ [CHR 0x22]"

fun encode_value :: "jvalue \<Rightarrow> string"
  and encode_elems :: "jvalue list \<Rightarrow> string"
  and encode_members :: "(string \<times> jvalue) list \<Rightarrow> string" where
  "encode_value JNull = ''null''"
| "encode_value (JBool b) = (if b then ''true'' else ''false'')"
| "encode_value (JNumber l) = l"
| "encode_value (JInt i) = show_int i"
| "encode_value (JString s) = encode_string s"
| "encode_value (JArray xs) = CHR ''['' # encode_elems xs @ '']''"
| "encode_value (JObject ms) = CHR ''{'' # encode_members ms @ ''}''"
| "encode_elems [] = []"
| "encode_elems [x] = encode_value x"
| "encode_elems (x # y # r) = encode_value x @ CHR '','' # encode_elems (y # r)"
| "encode_members [] = []"
| "encode_members [(k, v)] = encode_string k @ CHR '':'' # encode_value v"
| "encode_members ((k, v) # m # r) =
     encode_string k @ CHR '':'' # encode_value v @ CHR '','' # encode_members (m # r)"

text \<open>\<^verbatim>\<open>json.Marshal(js)\<close> for \<^verbatim>\<open>js\<close> of type \<^verbatim>\<open>map[string]interface{}\<close>; a nil map
  prints as \<^verbatim>\<open>null\<close>. It has no error for the values such a map holds here.\<close>

definition json_Marshal :: "gomap option \<Rightarrow> bytes" where
  "json_Marshal js = (case js of None \<Rightarrow> ''null'' | Some m \<Rightarrow> encode_value (JObject m))"

subsection \<open>Reading\<close>

datatype 'a parse = Parsed 'a string | Invalid | NoFuel

fun is_space :: "char \<Rightarrow> bool" where
  "is_space c \<longleftrightarrow> c = CHR 0x20 \<or> c = CHR 0x09 \<or> c = CHR 0x0A \<or> c = CHR 0x0D"

fun skip_ws :: "string \<Rightarrow> string" where
  "skip_ws [] = []"
| "skip_ws (c # cs) = (if is_space c then skip_ws cs else c # cs)"

fun hex_val :: "char \<Rightarrow> nat option" where
  "hex_val c =
     (let n = (of_char c :: nat) in
      if 48 \<le> n \<and> n \<le> 57 then Some (n - 48)
      else if 97 \<le> n \<and> n \<le> 102 then Some (n - 87)
      else if 65 \<le> n \<and> n \<le> 70 then Some (n - 55)
      else None)"

text \<open>The UTF-8 encoding of a code point below \<open>0x10000\<close>; a surrogate half is
  replaced by U+FFFD.\<close>

definition utf8_encode :: "nat \<Rightarrow> string" where
  "utf8_encode cp =
     (if cp < 0x80 then [char_of cp]
      else if cp < 0x800 then [char_of (0xC0 + cp div 64), char_of (0x80 + cp mod 64)]
      else if 0xD800 \<le> cp \<and> cp < 0xE000
        then [char_of (0xEF :: nat), char_of (0xBF :: nat), char_of (0xBD :: nat)]
      else [char_of (0xE0 + cp div 4096), char_of (0x80 + cp div 64 mod 64),
            char_of (0x80 + cp mod 64)])"

fun unescape :: "char \<Rightarrow> char option" where
  "unescape e =
     (if e = CHR 0x22 \<or> e = CHR 0x5C \<or> e = CHR ''/'' then Some e
      else if e = CHR ''b'' then Some (CHR 0x08)
      else if e = CHR ''f'' then Some (CHR 0x0C)
      else if e = CHR ''n'' then Some (CHR 0x0A)
      else if e = CHR ''r'' then Some (CHR 0x0D)
      else if e = CHR ''t'' then Some (CHR 0x09)
      else None)"

text \<open>The rest of a string literal after its opening quote: the decoded bytes and the
  input after the closing quote.\<close>

fun scan_string :: "string \<Rightarrow> (string \<times> string) option" where
  "scan_string [] = None"
| "scan_string (c # cs) =
     (if c = CHR 0x22 then Some ([], cs)
      else if c = CHR 0x5C then
        (case cs of
           [] \<Rightarrow> None
         | e # r \<Rightarrow>
             if e = CHR ''u'' then
               (case r of
                  h1 # h2 # h3 # h4 # r' \<Rightarrow>
                    (case (hex_val h1, hex_val h2, hex_val h3, hex_val h4) of
                       (Some a, Some b, Some c', Some d) \<Rightarrow>
                         (case scan_string r' of
                            None \<Rightarrow> None
                          | Some (s, rest) \<Rightarrow>
                              Some (utf8_encode (((a * 16 + b) * 16 + c') * 16 + d) @ s, rest))
                     | _ \<Rightarrow> None)
                | _ \<Rightarrow> None)
             else
               (case unescape e of
                  None \<Rightarrow> None
                | Some b \<Rightarrow>
                    (case scan_string r of
                       None \<Rightarrow> None
                     | Some (s, rest) \<Rightarrow> Some (b # s, rest))))
      else if (of_char c :: nat) < 0x20 then None
      else
        (case scan_string cs of
           None \<Rightarrow> None
         | Some (s, rest) \<Rightarrow> Some (c # s, rest)))"

text \<open>A number literal: \<^verbatim>\<open>-? (0 | [1-9][0-9]*) (. [0-9]+)? ([eE] [+-]? [0-9]+)?\<close>.\<close>

definition scan_int_part :: "string \<Rightarrow> (string \<times> string) option" where
  "scan_int_part s =
     (case s of
        [] \<Rightarrow> None
      | c # r \<Rightarrow>
          if c = CHR ''0'' then Some (''0'', r)
          else if is_digit c then Some (c # takeWhile is_digit r, dropWhile is_digit r)
          else None)"

definition scan_frac :: "string \<Rightarrow> (string \<times> string) option" where
  "scan_frac s =
     (case s of
        c # r \<Rightarrow>
          if c = CHR ''.'' then
            (if takeWhile is_digit r = [] then None
             else Some (c # takeWhile is_digit r, dropWhile is_digit r))
          else Some ([], s)
      | [] \<Rightarrow> Some ([], s))"

definition scan_exp :: "string \<Rightarrow> (string \<times> string) option" where
  "scan_exp s =
     (case s of
        c # r \<Rightarrow>
          if c = CHR ''e'' \<or> c = CHR ''E'' then
            (let (sg, r') = (case r of
                               [] \<Rightarrow> ([], r)
                             | d # r'' \<Rightarrow> if d = CHR ''+'' \<or> d = CHR ''-'' then ([d], r'') else ([], r))
             in if takeWhile is_digit r' = [] then None
                else Some (c # sg @ takeWhile is_digit r', dropWhile is_digit r'))
          else Some ([], s)
      | [] \<Rightarrow> Some ([], s))"

definition scan_number :: "string \<Rightarrow> (string \<times> string) option" where
  "scan_number s =
     (let (sg, s1) = (case s of
                        [] \<Rightarrow> ([], s)
                      | c # r \<Rightarrow> if c = CHR ''-'' then ([c], r) else ([], s))
      in case scan_int_part s1 of
           None \<Rightarrow> None
         | Some (i, s2) \<Rightarrow>
             (case scan_frac s2 of
                None \<Rightarrow> None
              | Some (f, s3) \<Rightarrow>
                  (case scan_exp s3 of
                     None \<Rightarrow> None
                   | Some (e, s4) \<Rightarrow> Some (sg @ i @ f @ e, s4))))"

definition strip_prefix :: "string \<Rightarrow> string \<Rightarrow> string option" where
  "strip_prefix p s = (if has_prefix s p then Some (drop (length p) s) else None)"

text \<open>The recursive descent over values, array elements and object members. Every
  call spends one unit of fuel; \<open>NoFuel\<close> tells an exhausted budget from a syntax
  error. The members of an object are returned in input order, repeated keys
  included.\<close>

fun parse_value :: "nat \<Rightarrow> string \<Rightarrow> jvalue parse"
  and parse_elems :: "nat \<Rightarrow> string \<Rightarrow> jvalue list parse"
  and parse_members :: "nat \<Rightarrow> string \<Rightarrow> (string \<times> jvalue) list parse" where
  "parse_value 0 s = NoFuel"
| "parse_value (Suc n) s =
     (case skip_ws s of
        [] \<Rightarrow> Invalid
      | c # cs \<Rightarrow>
          if c = CHR ''{'' then
            (case skip_ws cs of
               [] \<Rightarrow> Invalid
             | d # r \<Rightarrow>
                 if d = CHR ''}'' then Parsed (JObject []) r
                 else (case parse_members n cs of
                         Parsed ms r' \<Rightarrow> Parsed (JObject ms) r'
                       | Invalid \<Rightarrow> Invalid
                       | NoFuel \<Rightarrow> NoFuel))
          else if c = CHR ''['' then
            (case skip_ws cs of
               [] \<Rightarrow> Invalid
             | d # r \<Rightarrow>
                 if d = CHR '']'' then Parsed (JArray []) r
                 else (case parse_elems n cs of
                         Parsed xs r' \<Rightarrow> Parsed (JArray xs) r'
                       | Invalid \<Rightarrow> Invalid
                       | NoFuel \<Rightarrow> NoFuel))
          else if c = CHR 0x22 then
            (case scan_string cs of
               None \<Rightarrow> Invalid
             | Some (str, r) \<Rightarrow> Parsed (JString str) r)
          else if c = CHR ''t'' then
            (case strip_prefix ''rue'' cs of None \<Rightarrow> Invalid | Some r \<Rightarrow> Parsed (JBool True) r)
          else if c = CHR ''f'' then
            (case strip_prefix ''alse'' cs of None \<Rightarrow> Invalid | Some r \<Rightarrow> Parsed (JBool False) r)
          else if c = CHR ''n'' then
            (case strip_prefix ''ull'' cs of None \<Rightarrow> Invalid | Some r \<Rightarrow> Parsed JNull r)
          else
            (case scan_number (c # cs) of
               None \<Rightarrow> Invalid
             | Some (l, r) \<Rightarrow> Parsed (JNumber l) r))"
| "parse_elems 0 s = NoFuel"
| "parse_elems (Suc n) s =
     (case parse_value n s of
        Invalid \<Rightarrow> Invalid
      | NoFuel \<Rightarrow> NoFuel
      | Parsed x r \<Rightarrow>
          (case skip_ws r of
             [] \<Rightarrow> Invalid
           | d # r' \<Rightarrow>
               if d = CHR '']'' then Parsed [x] r'
               else if d = CHR '','' then
                 (case parse_elems n r' of
                    Parsed xs r'' \<Rightarrow> Parsed (x # xs) r''
                  | Invalid \<Rightarrow> Invalid
                  | NoFuel \<Rightarrow> NoFuel)
               else Invalid))"
| "parse_members 0 s = NoFuel"
| "parse_members (Suc n) s =
     (case skip_ws s of
        [] \<Rightarrow> Invalid
      | q # cs \<Rightarrow>
          if q \<noteq> CHR 0x22 then Invalid
          else
            (case scan_string cs of
               None \<Rightarrow> Invalid
             | Some (k, r1) \<Rightarrow>
                 (case skip_ws r1 of
                    [] \<Rightarrow> Invalid
                  | col # r2 \<Rightarrow>
                      if col \<noteq> CHR '':'' then Invalid
                      else
                        (case parse_value n r2 of
                           Invalid \<Rightarrow> Invalid
                         | NoFuel \<Rightarrow> NoFuel
                         | Parsed v r3 \<Rightarrow>
                             (case skip_ws r3 of
                                [] \<Rightarrow> Invalid
                              | d # r4 \<Rightarrow>
                                  if d = CHR ''}'' then Parsed [(k, v)] r4
                                  else if d = CHR '','' then
                                    (case parse_members n r4 of
                                       Parsed ms r5 \<Rightarrow> Parsed ((k, v) # ms) r5
                                     | Invalid \<Rightarrow> Invalid
                                     | NoFuel \<Rightarrow> NoFuel)
                                  else Invalid)))))"

text \<open>One JSON text: a value with nothing but white space around it. A call
  for a value is at most two calls away from the byte that opened the value around
  it, so twice the length of the input is fuel enough (\<open>json_parse_fuel\<close> below).\<close>

definition json_parse :: "bytes \<Rightarrow> jvalue parse" where
  "json_parse s =
     (case parse_value (Suc (2 * length s)) s of
        Parsed v r \<Rightarrow> if skip_ws r = [] then Parsed v [] else Invalid
      | Invalid \<Rightarrow> Invalid
      | NoFuel \<Rightarrow> NoFuel)"

text \<open>The Go value an \<^verbatim>\<open>interface{}\<close> receives: objects become maps, where a
  later member replaces an earlier one of the same name.\<close>

fun to_go :: "jvalue \<Rightarrow> jvalue"
  and to_go_elems :: "jvalue list \<Rightarrow> jvalue list"
  and to_go_members :: "gomap \<Rightarrow> (string \<times> jvalue) list \<Rightarrow> gomap" where
  "to_go (JArray xs) = JArray (to_go_elems xs)"
| "to_go (JObject ms) = JObject (to_go_members [] ms)"
| "to_go JNull = JNull"
| "to_go (JBool b) = JBool b"
| "to_go (JNumber l) = JNumber l"
| "to_go (JInt i) = JInt i"
| "to_go (JString s) = JString s"
| "to_go_elems [] = []"
| "to_go_elems (x # xs) = to_go x # to_go_elems xs"
| "to_go_members acc [] = acc"
| "to_go_members acc ((k, v) # ms) = to_go_members (ins k (to_go v) acc) ms"

text \<open>The errors a call of the store can return: \<^verbatim>\<open>store.ErrNotFound\<close>, the two
  kinds of error of \<^verbatim>\<open>json.Unmarshal\<close>, \<^verbatim>\<open>sql.ErrNoRows\<close>, an \<^verbatim>\<open>*os.PathError\<close>;
  \<open>ModelOutOfFuel\<close> is no error of the program but the exhausted budget of
  \<open>parse_value\<close>.\<close>

datatype error =
    ErrNotFound
  | SyntaxError
  | UnmarshalTypeError
  | ErrNoRows
  | PathError
  | ModelOutOfFuel

text \<open>A number that goes into an \<^verbatim>\<open>interface{}\<close> is converted by
  \<^verbatim>\<open>strconv.ParseFloat(s, 64)\<close>, which has a range error when the \<^verbatim>\<open>float64\<close>
  nearest to the literal is infinite, that is when the magnitude of the literal is at
  least \<open>2 ^ 1024 - 2 ^ 970\<close>, half a unit in the last place above the largest
  \<^verbatim>\<open>float64\<close>. \<open>number_overflows\<close> reads a number literal as \<open>m * 10 ^ e\<close> and
  compares.\<close>

definition float64_limit :: int where
  "float64_limit = 2 ^ 1024 - 2 ^ 970"

fun dec_int :: "int \<Rightarrow> string \<Rightarrow> int" where
  "dec_int a [] = a"
| "dec_int a (c # cs) = dec_int (10 * a + (of_char c - 48)) cs"

definition number_overflows :: "string \<Rightarrow> bool" where
  "number_overflows l =
     (let s1 = (case l of [] \<Rightarrow> [] | c # r \<Rightarrow> if c = CHR ''-'' then r else l);
          ip = takeWhile is_digit s1;
          r1 = dropWhile is_digit s1;
          fp = (case r1 of
                  [] \<Rightarrow> []
                | c # r \<Rightarrow> if c = CHR ''.'' then takeWhile is_digit r else []);
          r2 = (case r1 of
                  [] \<Rightarrow> []
                | c # r \<Rightarrow> if c = CHR ''.'' then dropWhile is_digit r else r1);
          ex = (case r2 of
                  [] \<Rightarrow> 0
                | c # r \<Rightarrow>
                    (case r of
                       [] \<Rightarrow> 0
                     | d # r' \<Rightarrow>
                         if d = CHR ''-'' then - dec_int 0 r'
                         else if d = CHR ''+'' then dec_int 0 r'
                         else dec_int 0 r));
          m = dec_int 0 (ip @ fp);
          e = ex - int (length fp)
      in if 0 \<le> e then float64_limit \<le> m * 10 ^ nat e
         else float64_limit * 10 ^ nat (- e) \<le> m)"

text \<open>Whether a value holds a number outside the range of \<^verbatim>\<open>float64\<close>.\<close>

fun overflows :: "jvalue \<Rightarrow> bool"
  and overflows_elems :: "jvalue list \<Rightarrow> bool"
  and overflows_members :: "(string \<times> jvalue) list \<Rightarrow> bool" where
  "overflows (JNumber l) = number_overflows l"
| "overflows (JArray xs) = overflows_elems xs"
| "overflows (JObject ms) = overflows_members ms"
| "overflows JNull = False"
| "overflows (JBool b) = False"
| "overflows (JInt i) = False"
| "overflows (JString s) = False"
| "overflows_elems [] = False"
| "overflows_elems (x # xs) = (overflows x \<or> overflows_elems xs)"
| "overflows_members [] = False"
| "overflows_members ((k, v) # ms) = (overflows v \<or> overflows_members ms)"

text \<open>\<^verbatim>\<open>var js map[string]interface{}; err := json.Unmarshal(data, &js)\<close>: the error,
  or the map \<^verbatim>\<open>js\<close> holds afterwards. The JSON text \<^verbatim>\<open>null\<close> is no error and leaves
  \<^verbatim>\<open>js\<close> nil (\<open>None\<close>). A text that is neither an object nor \<^verbatim>\<open>null\<close>, and an
  object with a number outside the range of \<^verbatim>\<open>float64\<close> anywhere inside it, have
  an \<^verbatim>\<open>UnmarshalTypeError\<close>.\<close>

definition json_Unmarshal :: "bytes \<Rightarrow> error + gomap option" where
  "json_Unmarshal data =
     (case json_parse data of
        Invalid \<Rightarrow> Inl SyntaxError
      | NoFuel \<Rightarrow> Inl ModelOutOfFuel
      | Parsed v r \<Rightarrow>
          (case to_go v of
             JObject m \<Rightarrow> if overflows v then Inl UnmarshalTypeError else Inr (Some m)
           | JNull \<Rightarrow> Inr None
           | _ \<Rightarrow> Inl UnmarshalTypeError))"

text \<open>\<^verbatim>\<open>var meta struct{ Revision int }; err := json.Unmarshal(data, &meta)\<close>. The
  members of the object are taken in input order. A member whose name is
  \<^verbatim>\<open>revision\<close> in any mix of cases sets the field when its value is an integer
  literal that fits an \<^verbatim>\<open>int\<close>, leaves it alone when the value is \<^verbatim>\<open>null\<close>, and
  otherwise records an \<^verbatim>\<open>UnmarshalTypeError\<close>, which the call returns at its end.\<close>

definition ascii_lower :: "char \<Rightarrow> char" where
  "ascii_lower c =
     (let n = (of_char c :: nat) in if 65 \<le> n \<and> n \<le> 90 then char_of (n + 32) else c)"

definition int_literal :: "string \<Rightarrow> int option" where
  "int_literal l =
     (case l of
        [] \<Rightarrow> None
      | c # r \<Rightarrow>
          if c = CHR ''-'' then
            (if r \<noteq> [] \<and> list_all is_digit r then Some (- int (dec_acc 0 r)) else None)
          else if list_all is_digit l then Some (int (dec_acc 0 l)) else None)"

fun decode_Revision :: "(string \<times> jvalue) list \<Rightarrow> int \<times> bool \<Rightarrow> int \<times> bool" where
  "decode_Revision [] acc = acc"
| "decode_Revision ((k, v) # ms) (cur, failed) =
     (if map ascii_lower k = ''revision'' then
        (case v of
           JNull \<Rightarrow> decode_Revision ms (cur, failed)
         | JNumber l \<Rightarrow>
             (case int_literal l of
                Some i \<Rightarrow>
                  if in_int64 i then decode_Revision ms (i, failed)
                  else decode_Revision ms (cur, True)
              | None \<Rightarrow> decode_Revision ms (cur, True))
         | _ \<Rightarrow> decode_Revision ms (cur, True))
      else decode_Revision ms (cur, failed))"

definition json_Unmarshal_Revision :: "bytes \<Rightarrow> error + int" where
  "json_Unmarshal_Revision data =
     (case json_parse data of
        Invalid \<Rightarrow> Inl SyntaxError
      | NoFuel \<Rightarrow> Inl ModelOutOfFuel
      | Parsed v r \<Rightarrow>
          (case v of
             JObject ms \<Rightarrow>
               (case decode_Revision ms (0, False) of
                  (cur, failed) \<Rightarrow> if failed then Inl UnmarshalTypeError else Inr cur)
           | JNull \<Rightarrow> Inr 0
           | _ \<Rightarrow> Inl UnmarshalTypeError))"

section \<open>The store package: Tiddler and its JSON projection\<close>

record Tiddler =
  Key :: string
  Meta :: bytes
  Text :: string
  WithText :: bool

text \<open>What a Go call ends in: it returns a value with a nil error, returns an
  error, or panics.\<close>

datatype 'a result = Ok 'a | Err error | Panic

text \<open>\<^verbatim>\<open>func (t *Tiddler) MarshalJSON() ([]byte, error)\<close>. The assignment
  \<^verbatim>\<open>js["text"] = t.Text\<close> panics when \<^verbatim>\<open>js\<close> is nil.\<close>

definition MarshalJSON :: "Tiddler \<Rightarrow> bytes result" where
  "MarshalJSON t =
     (if \<not> WithText t then Ok (Meta t)
      else
        (case json_Unmarshal (Meta t) of
           Inl err \<Rightarrow> Err err
         | Inr None \<Rightarrow> Panic
         | Inr (Some js) \<Rightarrow> Ok (json_Marshal (Some (map_assign ''text'' (JString (Text t)) js)))))"

text \<open>The tag literal of \<^verbatim>\<open>All\<close>, quotes included: the fifteen bytes
  \<^verbatim>\<open>"$:/tags/Macro"\<close>.\<close>

definition macro_tag :: bytes where
  \<open>macro_tag = ''"$:/tags/Macro"''\<close>

section \<open>The bolt backend\<close>

text \<open>
  A bolt bucket is an ordered map from byte keys to byte values. \<^verbatim>\<open>Bucket.Get\<close>
  returns nil (\<open>None\<close>) for a key that is not in the bucket and the stored bytes
  otherwise; a value stored as nil is read back as an empty slice that is not nil. A
  cursor visits the entries in byte order of their keys. Every method of the store
  runs in one transaction: \<^verbatim>\<open>db.Update\<close> commits what its function wrote when the
  function returns nil, and rolls it back when it returns an error or panics.
  Failures of the engine itself (disk, size limits of keys and values) are outside
  the model, so \<^verbatim>\<open>Bucket.Put\<close> has no error here.
\<close>

type_synonym Bucket = "(bytes \<times> bytes) list"

definition Bucket_Get :: "Bucket \<Rightarrow> bytes \<Rightarrow> bytes option" where
  "Bucket_Get b k = map_of b k"

definition Bucket_Put :: "Bucket \<Rightarrow> bytes \<Rightarrow> bytes \<Rightarrow> Bucket" where
  "Bucket_Put b k v = ins k v b"

record boltStore =
  tiddler :: Bucket
  tiddler_history :: Bucket

definition bolt_MustOpen :: boltStore where
  "bolt_MustOpen = \<lparr>tiddler = [], tiddler_history = []\<rparr>"

definition bolt_Get :: "boltStore \<Rightarrow> string \<Rightarrow> Tiddler result" where
  "bolt_Get s key =
     (case Bucket_Get (tiddler s) (key @ ''|1'') of
        None \<Rightarrow> Err ErrNotFound
      | Some meta \<Rightarrow>
          Ok \<lparr>Key = [], Meta = meta,
              Text = (case Bucket_Get (tiddler s) (key @ ''|2'') of None \<Rightarrow> [] | Some text \<Rightarrow> text),
              WithText = True\<rparr>)"

text \<open>The tiddler that one turn of the loop of \<^verbatim>\<open>All\<close> appends, from the bytes it
  took as metadata and the bytes of the entry after them.\<close>

definition listed :: "bytes \<Rightarrow> bytes \<Rightarrow> Tiddler" where
  "listed meta text =
     (if bytes_Contains meta macro_tag
      then \<lparr>Key = [], Meta = meta, Text = text, WithText = True\<rparr>
      else \<lparr>Key = [], Meta = meta, Text = [], WithText = False\<rparr>)"

text \<open>The cursor loop of \<^verbatim>\<open>All\<close>: the entry under the cursor is metadata, the next
  one its text, and the loop goes on from the entry after that. \<^verbatim>\<open>Next\<close> at the end
  of the bucket yields nil.\<close>

fun bolt_All_loop :: "Bucket \<Rightarrow> Tiddler list" where
  "bolt_All_loop [] = []"
| "bolt_All_loop [(k, meta)] = (if meta = [] then [] else [listed meta []])"
| "bolt_All_loop ((k, meta) # (k', text) # rest) =
     (if meta = [] then bolt_All_loop rest else listed meta text # bolt_All_loop rest)"

definition bolt_All :: "boltStore \<Rightarrow> Tiddler list result" where
  "bolt_All s = Ok (bolt_All_loop (tiddler s))"

definition bolt_getLastRevision :: "Bucket \<Rightarrow> bytes \<Rightarrow> int" where
  "bolt_getLastRevision b mkey =
     (case Bucket_Get b mkey of
        None \<Rightarrow> 1
      | Some data \<Rightarrow>
          (case json_Unmarshal_Revision data of
             Inr revision \<Rightarrow> int64 (revision + 1)
           | Inl err \<Rightarrow> 1))"

text \<open>The key of a history entry, \<^verbatim>\<open>fmt.Sprintf("%s#%d", key, rev)\<close>.\<close>

definition history_key :: "string \<Rightarrow> int \<Rightarrow> bytes" where
  "history_key key n = key @ ''#'' @ show_int n"

definition bolt_Put :: "boltStore \<Rightarrow> Tiddler \<Rightarrow> boltStore \<times> int result" where
  "bolt_Put s t =
     (case json_Unmarshal (Meta t) of
        Inl err \<Rightarrow> (s, Err err)
      | Inr js \<Rightarrow>
          (let b = tiddler s;
               mkey = Key t @ ''|1'';
               revn = bolt_getLastRevision b mkey
           in case js of
                None \<Rightarrow> (s, Panic)
              | Some m \<Rightarrow>
                  (let m1 = map_assign ''revision'' (JInt revn) m;
                       b1 = Bucket_Put b mkey (json_Marshal (Some m1));
                       b2 = Bucket_Put b1 (Key t @ ''|2'') (Text t);
                       m2 = map_assign ''text'' (JString (Text t)) m1;
                       h = Bucket_Put (tiddler_history s) (history_key (Key t) revn)
                             (json_Marshal (Some m2))
                   in (\<lparr>tiddler = b2, tiddler_history = h\<rparr>, Ok revn))))"

definition bolt_Delete :: "boltStore \<Rightarrow> string \<Rightarrow> boltStore \<times> unit result" where
  "bolt_Delete s key =
     (let b = tiddler s;
          mkey = key @ ''|1'';
          revn = bolt_getLastRevision b mkey;
          b1 = Bucket_Put b mkey [];
          b2 = Bucket_Put b1 (key @ ''|2'') [];
          h = Bucket_Put (tiddler_history s) (history_key key revn) []
      in (\<lparr>tiddler = b2, tiddler_history = h\<rparr>, Ok ()))"

section \<open>The sqlite backend\<close>

text \<open>
  The table \<^verbatim>\<open>tiddler\<close> is the list of its rows in rowid order, the order in which
  a \<^verbatim>\<open>SELECT\<close> without \<^verbatim>\<open>ORDER BY\<close> scans it, with the counter of
  \<^verbatim>\<open>AUTOINCREMENT\<close> beside it. \<^verbatim>\<open>x LIKE p\<close> is SQLite's: \<^verbatim>\<open>%\<close> in the pattern
  stands for any run of characters, \<^verbatim>\<open>_\<close> for one character, every other character
  for itself, ASCII letters without regard to case (the metadata are bound as a
  BLOB, which \<^verbatim>\<open>LIKE\<close> reads as text). \<^verbatim>\<open>QueryRow(...).Scan\<close> returns
  \<^verbatim>\<open>sql.ErrNoRows\<close> when the query selects no row. Failures of the engine itself
  are outside the model.
\<close>

record row =
  rowid :: nat
  meta :: bytes
  content :: string
  revision :: int

record sqliteStore =
  rows :: "row list"
  sequence :: nat

definition sqlite_MustOpen :: sqliteStore where
  "sqlite_MustOpen = \<lparr>rows = [], sequence = 0\<rparr>"

text \<open>The rest of \<open>s\<close> after its first UTF-8 character.\<close>

definition skip_char :: "string \<Rightarrow> string" where
  "skip_char s =
     (case s of
        [] \<Rightarrow> []
      | c # cs \<Rightarrow>
          if (0xC0 :: nat) \<le> of_char c
          then dropWhile (\<lambda>d. (0x80 :: nat) \<le> of_char d \<and> of_char d < (0xC0 :: nat)) cs
          else cs)"

fun sql_like :: "string \<Rightarrow> string \<Rightarrow> bool" where
  "sql_like [] s = (s = [])"
| "sql_like (p # ps) [] = (p = CHR ''%'' \<and> sql_like ps [])"
| "sql_like (p # ps) (c # cs) =
     (if p = CHR ''%'' then sql_like ps (c # cs) \<or> sql_like (p # ps) cs
      else if ascii_lower p = ascii_lower c then sql_like ps cs
      else p = CHR ''_'' \<and> sql_like ps (skip_char (c # cs)))"

definition sqlite_Get :: "sqliteStore \<Rightarrow> string \<Rightarrow> Tiddler result" where
  "sqlite_Get s key =
     (case filter (\<lambda>r. sql_like (''%'' @ key @ ''%'') (meta r)) (rows s) of
        [] \<Rightarrow> Err ErrNoRows
      | r # _ \<Rightarrow> Ok \<lparr>Key = [], Meta = meta r, Text = content r, WithText = True\<rparr>)"

definition sqlite_All :: "sqliteStore \<Rightarrow> Tiddler list result" where
  "sqlite_All s = Ok (map (\<lambda>r. listed (meta r) (content r)) (rows s))"

definition sqlite_getLastRevision :: "sqliteStore \<Rightarrow> string \<Rightarrow> int" where
  "sqlite_getLastRevision s mkey =
     (case filter (\<lambda>r. sql_like mkey (meta r)) (rows s) of
        [] \<Rightarrow> 0
      | r # _ \<Rightarrow> 1)"

definition sqlite_Put :: "sqliteStore \<Rightarrow> Tiddler \<Rightarrow> sqliteStore \<times> int result" where
  "sqlite_Put s t =
     (case json_Unmarshal (Meta t) of
        Inl err \<Rightarrow> (s, Err err)
      | Inr js \<Rightarrow>
          (let revn = sqlite_getLastRevision s (Key t);
               r = \<lparr>rowid = Suc (sequence s), meta = Meta t, content = Text t, revision = revn\<rparr>
           in (\<lparr>rows = rows s @ [r], sequence = Suc (sequence s)\<rparr>, Ok revn)))"

definition sqlite_Delete :: "sqliteStore \<Rightarrow> string \<Rightarrow> sqliteStore \<times> unit result" where
  "sqlite_Delete s key =
     (s\<lparr>rows := filter (\<lambda>r. \<not> sql_like key (meta r)) (rows s)\<rparr>, Ok ())"

section \<open>The flat-file backend\<close>

text \<open>
  The file system is the list of its regular files, each under its path as the
  process names it (relative to its working directory), in path order. The store
  never makes a directory after \<^verbatim>\<open>MustOpen\<close>, so the files it writes lie directly
  in its two directories as long as a key has no path separator; for such a key
  \<^verbatim>\<open>filepath.Join(dir, name)\<close> is \<open>dir/name\<close>, and this is what \<open>filepath_Join\<close>
  computes. Keys with a separator, and failures of the operating system itself
  (permissions, name length), are outside the model. \<^verbatim>\<open>regexp.MatchString\<close> is a
  parameter \<open>rx\<close> of the functions that call it: \<open>rx pattern name\<close> holds when the
  call returns true and no error.
\<close>

type_synonym FS = "(string \<times> bytes) list"

record flatFileStore =
  storePath :: string
  tiddlersPath :: string
  tiddlerHistoryPath :: string

definition filepath_Join :: "string \<Rightarrow> string \<Rightarrow> string" where
  "filepath_Join dir name = dir @ ''/'' @ name"

definition flat_MustOpen :: "string \<Rightarrow> flatFileStore" where
  "flat_MustOpen dataSource =
     \<lparr>storePath = dataSource,
      tiddlersPath = filepath_Join dataSource ''tiddlers'',
      tiddlerHistoryPath = filepath_Join dataSource ''tiddlerHistory''\<rparr>"

definition ioutil_ReadFile :: "FS \<Rightarrow> string \<Rightarrow> bytes option" where
  "ioutil_ReadFile fs path = map_of fs path"

definition ioutil_WriteFile :: "FS \<Rightarrow> string \<Rightarrow> bytes \<Rightarrow> FS" where
  "ioutil_WriteFile fs path data = ins path data fs"

text \<open>\<^verbatim>\<open>os.Remove\<close>: \<open>None\<close> is its error for a path that names no file. The
  errors of the \<^verbatim>\<open>os\<close> and \<^verbatim>\<open>ioutil\<close> calls are \<^verbatim>\<open>*os.PathError\<close> values, here
  \<open>PathError\<close>.\<close>

definition os_Remove :: "FS \<Rightarrow> string \<Rightarrow> FS option" where
  "os_Remove fs path =
     (if map_of fs path = None then None else Some (filter (\<lambda>f. fst f \<noteq> path) fs))"

text \<open>\<^verbatim>\<open>Get\<close>: \<^verbatim>\<open>os.Stat\<close> of the text file has an error for which
  \<^verbatim>\<open>os.IsNotExist\<close> holds when no file has that path.\<close>

definition flat_Get :: "flatFileStore \<Rightarrow> FS \<Rightarrow> string \<Rightarrow> Tiddler result" where
  "flat_Get s fs key =
     (let tiddlerPath = filepath_Join (tiddlersPath s) (key @ ''.tid'');
          tiddlerMetaPath = filepath_Join (tiddlersPath s) (key @ ''.meta'')
      in if map_of fs tiddlerPath = None then Err ErrNotFound
         else
           (case ioutil_ReadFile fs tiddlerMetaPath of
              None \<Rightarrow> Err PathError
            | Some m \<Rightarrow>
                (case ioutil_ReadFile fs tiddlerPath of
                   None \<Rightarrow> Err PathError
                 | Some text \<Rightarrow> Ok \<lparr>Key = [], Meta = m, Text = text, WithText = True\<rparr>)))"

text \<open>The names of the files that lie directly in \<open>dir\<close>, in the order in which
  \<^verbatim>\<open>filepath.Walk\<close> visits them.\<close>

definition dir_names :: "FS \<Rightarrow> string \<Rightarrow> string list" where
  "dir_names fs dir =
     concat (map (\<lambda>f. if has_prefix (fst f) (dir @ ''/'')
                        \<and> CHR ''/'' \<notin> set (drop (length dir + 1) (fst f))
                      then [drop (length dir + 1) (fst f)] else []) fs)"

definition checkExt :: "(string \<Rightarrow> string \<Rightarrow> bool) \<Rightarrow> FS \<Rightarrow> string \<Rightarrow> string \<Rightarrow> string list" where
  "checkExt rx fs pathS ext = filter (rx ext) (dir_names fs pathS)"

text \<open>\<^verbatim>\<open>filepath.Ext\<close> of a name without separator: the suffix from its last dot on.\<close>

fun filepath_Ext :: "string \<Rightarrow> string" where
  "filepath_Ext [] = []"
| "filepath_Ext (c # cs) =
     (if CHR ''.'' \<in> set cs then filepath_Ext cs
      else if c = CHR ''.'' then c # cs
      else [])"

text \<open>One turn of the loop of \<^verbatim>\<open>All\<close>. The metadata is read from the tiddlers
  directory; the text from \<^verbatim>\<open>tiddlerPath + ".tid"\<close>, a path with no directory in
  front.\<close>

definition flat_listed :: "flatFileStore \<Rightarrow> FS \<Rightarrow> string \<Rightarrow> Tiddler" where
  "flat_listed s fs file =
     (let m = (case ioutil_ReadFile fs (filepath_Join (tiddlersPath s) file) of
                 None \<Rightarrow> [] | Some d \<Rightarrow> d)
      in if bytes_Contains m macro_tag then
           (let extension = filepath_Ext file;
                tiddlerPath = take (length file - length extension) file;
                text = (case ioutil_ReadFile fs (tiddlerPath @ ''.tid'') of
                          None \<Rightarrow> [] | Some d \<Rightarrow> d)
            in \<lparr>Key = [], Meta = m, Text = text, WithText = True\<rparr>)
         else \<lparr>Key = [], Meta = m, Text = [], WithText = False\<rparr>)"

definition flat_All ::
  "(string \<Rightarrow> string \<Rightarrow> bool) \<Rightarrow> flatFileStore \<Rightarrow> FS \<Rightarrow> Tiddler list result" where
  "flat_All rx s fs = Ok (map (flat_listed s fs) (checkExt rx fs (tiddlersPath s) ''.meta''))"

text \<open>\<^verbatim>\<open>strings.Split(file, "#")\<close>.\<close>

fun split_hash :: "string \<Rightarrow> string list" where
  "split_hash [] = [[]]"
| "split_hash (c # cs) =
     (if c = CHR ''#'' then [] # split_hash cs
      else (case split_hash cs of [] \<Rightarrow> [[c]] | p # ps \<Rightarrow> (c # p) # ps))"

text \<open>\<^verbatim>\<open>rev, _ := strconv.Atoi(s)\<close>: the value of an optional sign and decimal
  digits, the nearest \<^verbatim>\<open>int\<close> when that is out of range, and 0 for anything else.\<close>

definition clamp64 :: "int \<Rightarrow> int" where
  "clamp64 i = (if i < - (2 ^ 63) then - (2 ^ 63) else if 2 ^ 63 \<le> i then 2 ^ 63 - 1 else i)"

definition strconv_Atoi :: "string \<Rightarrow> int" where
  "strconv_Atoi s =
     (case s of
        [] \<Rightarrow> 0
      | c # r \<Rightarrow>
          if c = CHR ''-'' then
            (if r \<noteq> [] \<and> list_all is_digit r then clamp64 (- int (dec_acc 0 r)) else 0)
          else if c = CHR ''+'' then
            (if r \<noteq> [] \<and> list_all is_digit r then clamp64 (int (dec_acc 0 r)) else 0)
          else if list_all is_digit s then clamp64 (int (dec_acc 0 s)) else 0)"

text \<open>The loop over the matching history files; \<^verbatim>\<open>filePart[1]\<close> panics (\<open>None\<close>)
  on a name without \<^verbatim>\<open>#\<close>.\<close>

fun highest_rev :: "string list \<Rightarrow> int \<Rightarrow> int option" where
  "highest_rev [] highestRev = Some highestRev"
| "highest_rev (file # files) highestRev =
     (case split_hash file of
        p0 # p1 # ps \<Rightarrow>
          highest_rev files (if strconv_Atoi p1 > highestRev then strconv_Atoi p1 else highestRev)
      | _ \<Rightarrow> None)"

definition flat_getLastRevision ::
  "(string \<Rightarrow> string \<Rightarrow> bool) \<Rightarrow> flatFileStore \<Rightarrow> FS \<Rightarrow> string \<Rightarrow> int option" where
  "flat_getLastRevision rx s fs key =
     (case highest_rev
             (filter (rx (key @ [CHR ''#'', CHR 0x5C, CHR ''d'', CHR ''+'']))
                (dir_names fs (tiddlerHistoryPath s))) 0 of
        None \<Rightarrow> None
      | Some highestRev \<Rightarrow> Some (int64 (highestRev + 1)))"

definition flat_Put ::
  "(string \<Rightarrow> string \<Rightarrow> bool) \<Rightarrow> flatFileStore \<Rightarrow> FS \<Rightarrow> Tiddler \<Rightarrow> FS \<times> int result" where
  "flat_Put rx s fs t =
     (case json_Unmarshal (Meta t) of
        Inl err \<Rightarrow> (fs, Err err)
      | Inr js \<Rightarrow>
          (case flat_getLastRevision rx s fs (Key t) of
             None \<Rightarrow> (fs, Panic)
           | Some revn \<Rightarrow>
               (let data = json_Marshal js;
                    fs1 = ioutil_WriteFile fs
                            (filepath_Join (tiddlersPath s) (Key t @ ''.tid'')) (Text t);
                    fs2 = ioutil_WriteFile fs1
                            (filepath_Join (tiddlersPath s) (Key t @ ''.meta'')) (Meta t);
                    fs3 = ioutil_WriteFile fs2
                            (filepath_Join (tiddlerHistoryPath s) (history_key (Key t) revn)) data
                in (fs3, Ok revn))))"

definition flat_Delete :: "flatFileStore \<Rightarrow> FS \<Rightarrow> string \<Rightarrow> FS \<times> unit result" where
  "flat_Delete s fs key =
     (case os_Remove fs (filepath_Join (tiddlersPath s) (key @ ''.tid'')) of
        None \<Rightarrow> (fs, Err PathError)
      | Some fs1 \<Rightarrow>
          (case os_Remove fs1 (filepath_Join (tiddlersPath s) (key @ ''.meta'')) of
             None \<Rightarrow> (fs1, Err PathError)
           | Some fs2 \<Rightarrow> (fs2, Ok ())))"

subsection \<open>The patterns the store hands to regexp.MatchString\<close>

text \<open>
  An instance of \<open>rx\<close> for the examples: the unanchored match of a pattern built from
  literal characters, \<^verbatim>\<open>.\<close> (any character but newline) and \<^verbatim>\<open>\d\<close> (a digit), each
  of which \<^verbatim>\<open>+\<close> may follow. These are the patterns \<^verbatim>\<open>.meta\<close> and
  \<^verbatim>\<open>key#\d+\<close> for a key without a character that the syntax of regular
  expressions reserves; on any other pattern the instance says no.
\<close>

datatype atom = Lit char | AnyChar | Digit

fun rx_items :: "string \<Rightarrow> (atom \<times> bool) list option" where
  "rx_items [] = Some []"
| "rx_items (c # cs) =
     (if c = CHR 0x5C then
        (case cs of
           d # r \<Rightarrow>
             if d = CHR ''d'' then
               (case r of
                  p # r' \<Rightarrow>
                    if p = CHR ''+'' then map_option (Cons (Digit, True)) (rx_items r')
                    else map_option (Cons (Digit, False)) (rx_items r)
                | [] \<Rightarrow> Some [(Digit, False)])
             else None
         | [] \<Rightarrow> None)
      else if c \<in> set ''+*?()[]{}|^$'' then None
      else
        (let a = (if c = CHR ''.'' then AnyChar else Lit c) in
         case cs of
           p # r' \<Rightarrow>
             if p = CHR ''+'' then map_option (Cons (a, True)) (rx_items r')
             else map_option (Cons (a, False)) (rx_items cs)
         | [] \<Rightarrow> Some [(a, False)]))"

fun atom_ok :: "atom \<Rightarrow> char \<Rightarrow> bool" where
  "atom_ok (Lit l) c = (c = l)"
| "atom_ok AnyChar c = (c \<noteq> CHR 0x0A)"
| "atom_ok Digit c = is_digit c"

fun match_here :: "(atom \<times> bool) list \<Rightarrow> string \<Rightarrow> bool" where
  "match_here [] s = True"
| "match_here ((a, rep) # r) [] = False"
| "match_here ((a, rep) # r) (c # cs) =
     (atom_ok a c \<and> (match_here r cs \<or> (rep \<and> match_here ((a, rep) # r) cs)))"

fun match_anywhere :: "(atom \<times> bool) list \<Rightarrow> string \<Rightarrow> bool" where
  "match_anywhere items [] = match_here items []"
| "match_anywhere items (c # cs) = (match_here items (c # cs) \<or> match_anywhere items cs)"

definition regexp_MatchString :: "string \<Rightarrow> string \<Rightarrow> bool" where
  "regexp_MatchString pattern name =
     (case rx_items pattern of None \<Rightarrow> False | Some items \<Rightarrow> match_anywhere items name)"

section \<open>Sequences of calls\<close>

text \<open>The calls that change a store, and the store they leave when made one after
  the other on a freshly opened database.\<close>

datatype call = CallPut Tiddler | CallDelete string

fun call_key :: "call \<Rightarrow> string" where
  "call_key (CallPut t) = Key t"
| "call_key (CallDelete k) = k"

fun bolt_call :: "boltStore \<Rightarrow> call \<Rightarrow> boltStore" where
  "bolt_call s (CallPut t) = fst (bolt_Put s t)"
| "bolt_call s (CallDelete k) = fst (bolt_Delete s k)"

definition bolt_run :: "call list \<Rightarrow> boltStore" where
  "bolt_run cs = foldl bolt_call bolt_MustOpen cs"

fun sqlite_call :: "sqliteStore \<Rightarrow> call \<Rightarrow> sqliteStore" where
  "sqlite_call s (CallPut t) = fst (sqlite_Put s t)"
| "sqlite_call s (CallDelete k) = fst (sqlite_Delete s k)"

definition sqlite_run :: "call list \<Rightarrow> sqliteStore" where
  "sqlite_run cs = foldl sqlite_call sqlite_MustOpen cs"

fun flat_call :: "flatFileStore \<Rightarrow> FS \<Rightarrow> call \<Rightarrow> FS" where
  "flat_call s fs (CallPut t) = fst (flat_Put regexp_MatchString s fs t)"
| "flat_call s fs (CallDelete k) = fst (flat_Delete s fs k)"

definition flat_run :: "flatFileStore \<Rightarrow> call list \<Rightarrow> FS" where
  "flat_run s cs = foldl (flat_call s) [] cs"

text \<open>The store and the tiddlers of the examples: the default data source, a plain
  tiddler, a global macro, a tiddler whose title ends in \<^verbatim>\<open>|1\<close>, and a tiddler whose
  metadata is the JSON text \<^verbatim>\<open>null\<close>.\<close>

definition widdly_db :: flatFileStore where
  "widdly_db = flat_MustOpen ''widdly.db''"

definition tiddlerA :: "string \<Rightarrow> Tiddler" where
  \<open>tiddlerA text = \<lparr>Key = ''A'', Meta = ''{"title":"A"}'', Text = text, WithText = False\<rparr>\<close>

definition macroM :: Tiddler where
  \<open>macroM =
     \<lparr>Key = ''M'', Meta = ''{"tags":"$:/tags/Macro"}'', Text = ''body'', WithText = False\<rparr>\<close>

definition tiddlerM1 :: Tiddler where
  \<open>tiddlerM1 =
     \<lparr>Key = ''M|1'', Meta = ''{"title":"M|1"}'', Text = ''other'', WithText = False\<rparr>\<close>

definition nullA :: Tiddler where
  \<open>nullA = \<lparr>Key = ''A'', Meta = ''null'', Text = ''hello'', WithText = True\<rparr>\<close>

section \<open>The fuel of the JSON reader\<close>

text \<open>Every scanner returns less input than it was given, so the reader's calls
  are nested no deeper than twice the length of the input and \<open>json_parse\<close> never
  ends in \<open>NoFuel\<close>: \<open>ModelOutOfFuel\<close> is no result of \<^verbatim>\<open>json.Unmarshal\<close>.\<close>

lemma skip_ws_le: "length (skip_ws s) \<le> length s"
  by (induction s) auto

lemma skip_ws_Cons_lt: "skip_ws s = c # cs \<Longrightarrow> length cs < length s"
  using skip_ws_le [of s] by simp

lemma scan_string_step:
  assumes "scan_string (c # cs) = Some (x, r)"
  shows "r = cs \<or> (\<exists>r' y. length r' \<le> length cs \<and> scan_string r' = Some (y, r))"
proof (cases "c = CHR 0x22")
  case True
  with assms show ?thesis by simp
next
  case nq: False
  show ?thesis
  proof (cases "c = CHR 0x5C")
    case bs: True
    show ?thesis
    proof (cases cs)
      case Nil
      with assms nq bs show ?thesis by simp
    next
      case (Cons e r0)
      show ?thesis
      proof (cases "e = CHR ''u''")
        case u: True
        from assms nq bs Cons u obtain h1 h2 h3 h4 r' s0 where
          r0: "r0 = h1 # h2 # h3 # h4 # r'" and
          rec: "scan_string r' = Some (s0, r)"
          by (auto simp del: hex_val.simps split: list.splits option.splits prod.splits)
        then show ?thesis using Cons by auto
      next
        case nu: False
        from assms nq bs Cons nu obtain s0 where
          rec: "scan_string r0 = Some (s0, r)"
          by (auto simp del: unescape.simps split: option.splits prod.splits)
        then show ?thesis using Cons by auto
      qed
    qed
  next
    case nbs: False
    from assms nq nbs obtain s0 where rec: "scan_string cs = Some (s0, r)"
      by (auto split: if_splits option.splits prod.splits)
    then show ?thesis by auto
  qed
qed

lemma scan_string_lt: "scan_string s = Some (x, r) \<Longrightarrow> length r < length s"
proof (induction "length s" arbitrary: s x r rule: less_induct)
  case less
  show ?case
  proof (cases s)
    case Nil
    with less.prems show ?thesis by simp
  next
    case (Cons c cs)
    from scan_string_step [of c cs x r] less.prems Cons
    consider "r = cs" | r' y where "length r' \<le> length cs" "scan_string r' = Some (y, r)"
      by auto
    then show ?thesis
    proof cases
      case 1
      then show ?thesis using Cons by simp
    next
      case 2
      from less.hyps [of r' y r] 2 Cons have "length r < length r'" by simp
      with 2 Cons show ?thesis by simp
    qed
  qed
qed

lemma dropWhile_le: "length (dropWhile P xs) \<le> length xs"
  by (induction xs) auto

lemma scan_int_part_lt: "scan_int_part s = Some (i, r) \<Longrightarrow> length r < length s"
  using dropWhile_le [of is_digit "tl s"]
  by (auto simp: scan_int_part_def le_imp_less_Suc simp del: is_digit.simps split: list.splits if_splits)

lemma scan_frac_le: "scan_frac s = Some (f, r) \<Longrightarrow> length r \<le> length s"
  using dropWhile_le [of is_digit "tl s"]
  by (auto simp: scan_frac_def le_SucI simp del: is_digit.simps split: list.splits if_splits)

lemma scan_exp_le: "scan_exp s = Some (e, r) \<Longrightarrow> length r \<le> length s"
proof -
  assume a: "scan_exp s = Some (e, r)"
  have d: "\<And>xs. length (dropWhile is_digit xs) \<le> length xs" by (rule dropWhile_le)
  show ?thesis
  proof (cases s)
    case Nil
    with a show ?thesis by (simp add: scan_exp_def)
  next
    case (Cons c rr)
    show ?thesis
    proof (cases "c = CHR ''e'' \<or> c = CHR ''E''")
      case False
      with a Cons show ?thesis by (auto simp: scan_exp_def)
    next
      case True
      show ?thesis
      proof (cases rr)
        case Nil
        with a Cons True show ?thesis by (auto simp: scan_exp_def)
      next
        case (Cons d0 r2)
        show ?thesis
        proof (cases "d0 = CHR ''+'' \<or> d0 = CHR ''-''")
          case sg: True
          with a \<open>s = c # rr\<close> True Cons have "r = dropWhile is_digit r2"
            by (auto simp: scan_exp_def simp del: is_digit.simps split: if_splits)
          then show ?thesis using d [of r2] \<open>s = c # rr\<close> Cons by simp
        next
          case nsg: False
          with a \<open>s = c # rr\<close> True Cons have "r = dropWhile is_digit rr"
            by (auto simp: scan_exp_def simp del: is_digit.simps split: if_splits)
          then show ?thesis using d [of rr] \<open>s = c # rr\<close> by simp
        qed
      qed
    qed
  qed
qed

lemma scan_number_lt: "scan_number s = Some (l, r) \<Longrightarrow> length r < length s"
proof -
  assume a: "scan_number s = Some (l, r)"
  define s1 where "s1 = (case s of [] \<Rightarrow> s | c # r0 \<Rightarrow> if c = CHR ''-'' then r0 else s)"
  have s1: "length s1 \<le> length s"
    by (simp add: s1_def split: list.splits)
  from a obtain i s2 f s3 e where
    i: "scan_int_part s1 = Some (i, s2)" and
    f: "scan_frac s2 = Some (f, s3)" and
    e: "scan_exp s3 = Some (e, r)"
    by (auto simp: scan_number_def s1_def split: list.splits if_splits option.splits prod.splits)
  from scan_int_part_lt [OF i] scan_frac_le [OF f] scan_exp_le [OF e] s1
  show ?thesis by simp
qed

lemma strip_prefix_le: "strip_prefix p s = Some r \<Longrightarrow> length r \<le> length s"
  by (auto simp: strip_prefix_def split: if_splits)

lemma parse_value_rest:
  assumes E: "\<forall>s xs r. parse_elems n s = Parsed xs r \<longrightarrow> length r < length s"
      and M: "\<forall>s ms r. parse_members n s = Parsed ms r \<longrightarrow> length r < length s"
      and p: "parse_value (Suc n) s = Parsed v r"
  shows "length r < length s"
proof (cases "skip_ws s")
  case Nil
  with p show ?thesis by simp
next
  case (Cons c cs)
  have cs: "length cs < length s" using Cons by (rule skip_ws_Cons_lt)
  consider (obj) "c = CHR ''{''" | (arr) "c \<noteq> CHR ''{''" "c = CHR ''[''"
    | (str) "c \<noteq> CHR ''{''" "c \<noteq> CHR ''[''" "c = CHR 0x22"
    | (lit) "c \<noteq> CHR ''{''" "c \<noteq> CHR ''[''" "c \<noteq> CHR 0x22" "c = CHR ''t'' \<or> c = CHR ''f'' \<or> c = CHR ''n''"
    | (num) "c \<noteq> CHR ''{''" "c \<noteq> CHR ''[''" "c \<noteq> CHR 0x22" "c \<noteq> CHR ''t''" "c \<noteq> CHR ''f''" "c \<noteq> CHR ''n''"
    by blast
  then show ?thesis
  proof cases
    case obj
    show ?thesis
    proof (cases "skip_ws cs")
      case Nil
      with p Cons obj show ?thesis by simp
    next
      case d: (Cons d r0)
      have r0: "length r0 < length cs" using d by (rule skip_ws_Cons_lt)
      show ?thesis
      proof (cases "d = CHR ''}''")
        case True
        with p Cons obj d have "r = r0" by simp
        with r0 cs show ?thesis by simp
      next
        case False
        with p Cons obj d obtain ms where "parse_members n cs = Parsed ms r"
          by (auto split: parse.splits)
        from M this cs show ?thesis by fastforce
      qed
    qed
  next
    case arr
    show ?thesis
    proof (cases "skip_ws cs")
      case Nil
      with p Cons arr show ?thesis by simp
    next
      case d: (Cons d r0)
      have r0: "length r0 < length cs" using d by (rule skip_ws_Cons_lt)
      show ?thesis
      proof (cases "d = CHR '']''")
        case True
        with p Cons arr d have "r = r0" by simp
        with r0 cs show ?thesis by simp
      next
        case False
        with p Cons arr d obtain xs where "parse_elems n cs = Parsed xs r"
          by (auto split: parse.splits)
        from E this cs show ?thesis by fastforce
      qed
    qed
  next
    case str
    with p Cons obtain x where "scan_string cs = Some (x, r)"
      by (auto split: option.splits)
    from scan_string_lt [OF this] cs show ?thesis by simp
  next
    case lit
    with p Cons obtain q where "strip_prefix q cs = Some r"
      by (auto split: option.splits if_splits)
    from strip_prefix_le [OF this] cs show ?thesis by simp
  next
    case num
    with p Cons obtain l where "scan_number (c # cs) = Some (l, r)"
      by (auto split: option.splits)
    from scan_number_lt [OF this] cs skip_ws_le [of s] Cons show ?thesis by simp
  qed
qed

lemma parse_elems_rest:
  assumes V: "\<forall>s v r. parse_value n s = Parsed v r \<longrightarrow> length r < length s"
      and E: "\<forall>s xs r. parse_elems n s = Parsed xs r \<longrightarrow> length r < length s"
      and p: "parse_elems (Suc n) s = Parsed xs r"
  shows "length r + 1 < length s"
proof -
  from p obtain x r1 where v: "parse_value n s = Parsed x r1"
    by (auto split: parse.splits)
  from V v have r1: "length r1 < length s" by blast
  from p v obtain d r2 where d: "skip_ws r1 = d # r2"
    by (auto split: list.splits)
  have r2: "length r2 < length r1" using d by (rule skip_ws_Cons_lt)
  show ?thesis
  proof (cases "d = CHR '']''")
    case True
    with p v d have "r = r2" by simp
    with r1 r2 show ?thesis by simp
  next
    case False
    with p v d obtain ys where "parse_elems n r2 = Parsed ys r"
      by (auto split: parse.splits if_splits)
    from E this r1 r2 show ?thesis by fastforce
  qed
qed

lemma parse_members_rest:
  assumes V: "\<forall>s v r. parse_value n s = Parsed v r \<longrightarrow> length r < length s"
      and M: "\<forall>s ms r. parse_members n s = Parsed ms r \<longrightarrow> length r < length s"
      and p: "parse_members (Suc n) s = Parsed ms r"
  shows "length r < length s"
proof -
  from p obtain q cs where q: "skip_ws s = q # cs"
    by (auto split: list.splits)
  have cs: "length cs < length s" using q by (rule skip_ws_Cons_lt)
  from p q have qq: "q = CHR 0x22" by (auto split: if_splits)
  from p q qq obtain k r1 where k: "scan_string cs = Some (k, r1)"
    by (auto split: option.splits)
  have r1: "length r1 < length cs" using k by (rule scan_string_lt)
  from p q qq k obtain col r2 where col: "skip_ws r1 = col # r2"
    by (auto split: list.splits)
  have r2: "length r2 < length r1" using col by (rule skip_ws_Cons_lt)
  from p q qq k col have cc: "col = CHR '':''" by (auto split: if_splits)
  from p q qq k col cc obtain v r3 where v: "parse_value n r2 = Parsed v r3"
    by (auto split: parse.splits)
  from V v have r3: "length r3 < length r2" by blast
  from p q qq k col cc v obtain d r4 where d: "skip_ws r3 = d # r4"
    by (auto split: list.splits)
  have r4: "length r4 < length r3" using d by (rule skip_ws_Cons_lt)
  show ?thesis
  proof (cases "d = CHR ''}''")
    case True
    with p q qq k col cc v d have "r = r4" by simp
    with cs r1 r2 r3 r4 show ?thesis by simp
  next
    case False
    with p q qq k col cc v d obtain ms' where "parse_members n r4 = Parsed ms' r"
      by (auto split: parse.splits if_splits)
    from M this cs r1 r2 r3 r4 show ?thesis by fastforce
  qed
qed

lemma parse_rest:
  "(\<forall>s v r. parse_value n s = Parsed v r \<longrightarrow> length r < length s)
 \<and> (\<forall>s xs r. parse_elems n s = Parsed xs r \<longrightarrow> length r < length s)
 \<and> (\<forall>s ms r. parse_members n s = Parsed ms r \<longrightarrow> length r < length s)"
proof (induction n)
  case 0
  show ?case by simp
next
  case (Suc n)
  then have V: "\<forall>s v r. parse_value n s = Parsed v r \<longrightarrow> length r < length s"
    and E: "\<forall>s xs r. parse_elems n s = Parsed xs r \<longrightarrow> length r < length s"
    and M: "\<forall>s ms r. parse_members n s = Parsed ms r \<longrightarrow> length r < length s"
    by blast+
  have "\<forall>s v r. parse_value (Suc n) s = Parsed v r \<longrightarrow> length r < length s"
    using parse_value_rest [OF E M] by blast
  moreover have "\<forall>s xs r. parse_elems (Suc n) s = Parsed xs r \<longrightarrow> length r < length s"
    using parse_elems_rest [OF V E] by fastforce
  moreover have "\<forall>s ms r. parse_members (Suc n) s = Parsed ms r \<longrightarrow> length r < length s"
    using parse_members_rest [OF V M] by blast
  ultimately show ?case by blast
qed

lemma parse_value_rest_lt: "parse_value n s = Parsed v r \<Longrightarrow> length r < length s"
  using parse_rest [of n] by blast

lemma parse_value_fuel:
  assumes E: "\<forall>s. 2 * length s + 1 < n \<longrightarrow> parse_elems n s \<noteq> NoFuel"
      and M: "\<forall>s. 2 * length s < n \<longrightarrow> parse_members n s \<noteq> NoFuel"
      and l: "2 * length s < Suc n"
  shows "parse_value (Suc n) s \<noteq> NoFuel"
proof
  assume p: "parse_value (Suc n) s = NoFuel"
  then obtain c cs where sk: "skip_ws s = c # cs"
    by (auto split: list.splits)
  have cs: "length cs < length s" using sk by (rule skip_ws_Cons_lt)
  from p sk have "parse_members n cs = NoFuel \<or> parse_elems n cs = NoFuel"
    by (auto split: list.splits if_splits parse.splits option.splits prod.splits)
  then show False
  proof
    assume "parse_members n cs = NoFuel"
    moreover from cs l have "2 * length cs < n" by simp
    ultimately show False using M by blast
  next
    assume "parse_elems n cs = NoFuel"
    moreover from cs l have "2 * length cs + 1 < n" by simp
    ultimately show False using E by blast
  qed
qed

lemma parse_elems_fuel:
  assumes V: "\<forall>s. 2 * length s < n \<longrightarrow> parse_value n s \<noteq> NoFuel"
      and E: "\<forall>s. 2 * length s + 1 < n \<longrightarrow> parse_elems n s \<noteq> NoFuel"
      and l: "2 * length s + 1 < Suc n"
  shows "parse_elems (Suc n) s \<noteq> NoFuel"
proof
  assume p: "parse_elems (Suc n) s = NoFuel"
  from l V have nv: "parse_value n s \<noteq> NoFuel" by simp
  with p obtain x r1 where v: "parse_value n s = Parsed x r1"
    by (auto split: parse.splits)
  have r1: "length r1 < length s" using v by (rule parse_value_rest_lt)
  from p v obtain d r2 where d: "skip_ws r1 = d # r2" and f: "parse_elems n r2 = NoFuel"
    by (auto split: list.splits if_splits parse.splits)
  have r2: "length r2 < length r1" using d by (rule skip_ws_Cons_lt)
  from r1 r2 l have "2 * length r2 + 1 < n" by simp
  with E f show False by blast
qed

lemma parse_members_fuel:
  assumes V: "\<forall>s. 2 * length s < n \<longrightarrow> parse_value n s \<noteq> NoFuel"
      and M: "\<forall>s. 2 * length s < n \<longrightarrow> parse_members n s \<noteq> NoFuel"
      and l: "2 * length s < Suc n"
  shows "parse_members (Suc n) s \<noteq> NoFuel"
proof
  assume p: "parse_members (Suc n) s = NoFuel"
  then obtain q cs where q: "skip_ws s = q # cs"
    by (auto split: list.splits)
  have cs: "length cs < length s" using q by (rule skip_ws_Cons_lt)
  from p q have qq: "q = CHR 0x22" by (auto split: if_splits)
  from p q qq obtain k r1 where k: "scan_string cs = Some (k, r1)"
    by (auto split: option.splits)
  have r1: "length r1 < length cs" using k by (rule scan_string_lt)
  from p q qq k obtain col r2 where col: "skip_ws r1 = col # r2"
    by (auto split: list.splits)
  have r2: "length r2 < length r1" using col by (rule skip_ws_Cons_lt)
  from p q qq k col have cc: "col = CHR '':''" by (auto split: if_splits)
  from cs r1 r2 l have "2 * length r2 < n" by simp
  with V have "parse_value n r2 \<noteq> NoFuel" by blast
  with p q qq k col cc obtain v r3 where v: "parse_value n r2 = Parsed v r3"
    by (auto split: parse.splits)
  have r3: "length r3 < length r2" using v by (rule parse_value_rest_lt)
  from p q qq k col cc v obtain d r4 where d: "skip_ws r3 = d # r4"
    and f: "parse_members n r4 = NoFuel"
    by (auto split: list.splits if_splits parse.splits)
  have r4: "length r4 < length r3" using d by (rule skip_ws_Cons_lt)
  from cs r1 r2 r3 r4 l have "2 * length r4 < n" by simp
  with M f show False by blast
qed

lemma parse_fuel:
  "(\<forall>s. 2 * length s < n \<longrightarrow> parse_value n s \<noteq> NoFuel)
 \<and> (\<forall>s. 2 * length s + 1 < n \<longrightarrow> parse_elems n s \<noteq> NoFuel)
 \<and> (\<forall>s. 2 * length s < n \<longrightarrow> parse_members n s \<noteq> NoFuel)"
proof (induction n)
  case 0
  show ?case by simp
next
  case (Suc n)
  then have V: "\<forall>s. 2 * length s < n \<longrightarrow> parse_value n s \<noteq> NoFuel"
    and E: "\<forall>s. 2 * length s + 1 < n \<longrightarrow> parse_elems n s \<noteq> NoFuel"
    and M: "\<forall>s. 2 * length s < n \<longrightarrow> parse_members n s \<noteq> NoFuel"
    by blast+
  have "\<forall>s. 2 * length s < Suc n \<longrightarrow> parse_value (Suc n) s \<noteq> NoFuel"
    using parse_value_fuel [OF E M] by blast
  moreover have "\<forall>s. 2 * length s + 1 < Suc n \<longrightarrow> parse_elems (Suc n) s \<noteq> NoFuel"
    using parse_elems_fuel [OF V E] by blast
  moreover have "\<forall>s. 2 * length s < Suc n \<longrightarrow> parse_members (Suc n) s \<noteq> NoFuel"
    using parse_members_fuel [OF V M] by blast
  ultimately show ?case by blast
qed

lemma json_parse_fuel: "json_parse s \<noteq> NoFuel"
proof -
  have "parse_value (Suc (2 * length s)) s \<noteq> NoFuel"
    using parse_fuel [of "Suc (2 * length s)"] by simp
  then show ?thesis
    by (auto simp: json_parse_def split: parse.splits)
qed

lemma json_Unmarshal_fuel: "json_Unmarshal data \<noteq> Inl ModelOutOfFuel"
  using json_parse_fuel [of data]
  by (auto simp: json_Unmarshal_def split: parse.splits jvalue.splits if_splits)

lemma json_Unmarshal_Revision_fuel: "json_Unmarshal_Revision data \<noteq> Inl ModelOutOfFuel"
  using json_parse_fuel [of data]
  by (auto simp: json_Unmarshal_Revision_def split: parse.splits jvalue.splits prod.splits)

section \<open>Buckets\<close>

lemma map_of_ins: "map_of (ins k v m) = (map_of m)(k \<mapsto> v)"
  by (induction m) (auto simp: fun_eq_iff)

lemma Bucket_Get_Put:
  "Bucket_Get (Bucket_Put b k v) k' = (if k' = k then Some v else Bucket_Get b k')"
  by (simp add: Bucket_Get_def Bucket_Put_def map_of_ins)

lemma show_int_1: "show_int 1 = ''1''"
  by code_simp

lemma history_key_1: "history_key k 1 = k @ ''#1''"
  by (simp add: history_key_def show_int_1)

lemma bolt_getLastRevision_absent:
  "Bucket_Get b mkey = None \<Longrightarrow> bolt_getLastRevision b mkey = 1"
  by (simp add: bolt_getLastRevision_def)

section \<open>Revisions\<close>

text \<open>On a fresh bolt store three calls of \<^verbatim>\<open>Put\<close> with one key return 1, 2, 3.\<close>

lemma bolt_Put_revisions_example:
  "snd (bolt_Put (bolt_run []) (tiddlerA ''hello'')) = Ok 1
 \<and> snd (bolt_Put (bolt_run [CallPut (tiddlerA ''hello'')]) (tiddlerA ''hello'')) = Ok 2
 \<and> snd (bolt_Put (bolt_run [CallPut (tiddlerA ''hello''), CallPut (tiddlerA ''hello'')])
        (tiddlerA ''hello'')) = Ok 3"
  by code_simp

text \<open>The bolt \<^verbatim>\<open>getLastRevision\<close> reads the stored metadata into a
  \<^verbatim>\<open>struct{ Revision int }\<close>, whose field also takes a member named \<^verbatim>\<open>Revision\<close>;
  when that member is no number the call has an error and the revision stays 1.\<close>

lemma bolt_Put_revisions_Revision_member:
  \<open>snd (bolt_Put (bolt_run [])
        \<lparr>Key = ''A'', Meta = ''{"Revision":"x"}'', Text = [], WithText = False\<rparr>) = Ok 1
 \<and> snd (bolt_Put
        (bolt_run [CallPut \<lparr>Key = ''A'', Meta = ''{"Revision":"x"}'', Text = [], WithText = False\<rparr>])
        \<lparr>Key = ''A'', Meta = ''{"Revision":"x"}'', Text = [], WithText = False\<rparr>) = Ok 1\<close>
  by code_simp

text \<open>The sqlite \<^verbatim>\<open>getLastRevision\<close> returns 1 when its query finds a row and the
  zero value otherwise, so no \<^verbatim>\<open>Put\<close> of that backend returns anything else.\<close>

lemma sqlite_Put_revision_0_or_1:
  "snd (sqlite_Put s t) = Ok r \<Longrightarrow> r = 0 \<or> r = 1"
  by (auto simp: sqlite_Put_def sqlite_getLastRevision_def Let_def
           split: sum.splits list.splits)

text \<open>
  C1. \<^verbatim>\<open>Put\<close> gives a key the revision after its last one, 0 standing for "never
  written", so that \<open>n\<close> calls with one key on a fresh store return \<open>1, \<dots>, n\<close>. The
  sqlite backend does not: on a fresh store three calls of \<^verbatim>\<open>Put\<close> with the key
  \<^verbatim>\<open>A\<close> return 0, 0 and 0.
\<close>

theorem sqlite_Put_revisions:
  "snd (sqlite_Put (sqlite_run []) (tiddlerA ''hello'')) = Ok 0
 \<and> snd (sqlite_Put (sqlite_run [CallPut (tiddlerA ''hello'')]) (tiddlerA ''hello'')) = Ok 0
 \<and> snd (sqlite_Put (sqlite_run [CallPut (tiddlerA ''hello''), CallPut (tiddlerA ''hello'')])
        (tiddlerA ''hello'')) = Ok 0"
  by code_simp

section \<open>Keys that were never written\<close>

lemma bolt_Put_live_other:
  "k' \<noteq> Key t \<Longrightarrow>
   Bucket_Get (tiddler (fst (bolt_Put s t))) (k' @ ''|1'') = Bucket_Get (tiddler s) (k' @ ''|1'')"
  by (auto simp: bolt_Put_def Let_def Bucket_Get_Put split: sum.splits option.splits)

lemma bolt_Delete_live_other:
  "k' \<noteq> k \<Longrightarrow>
   Bucket_Get (tiddler (fst (bolt_Delete s k))) (k' @ ''|1'') = Bucket_Get (tiddler s) (k' @ ''|1'')"
  by (auto simp: bolt_Delete_def Let_def Bucket_Get_Put)

lemma bolt_call_live_other:
  "k \<noteq> call_key c \<Longrightarrow>
   Bucket_Get (tiddler (bolt_call s c)) (k @ ''|1'') = Bucket_Get (tiddler s) (k @ ''|1'')"
  by (cases c) (simp_all add: bolt_Put_live_other bolt_Delete_live_other)

lemma bolt_foldl_live_other:
  "k \<notin> call_key ` set cs \<Longrightarrow>
   Bucket_Get (tiddler (foldl bolt_call s cs)) (k @ ''|1'') = Bucket_Get (tiddler s) (k @ ''|1'')"
  by (induction cs arbitrary: s) (simp_all add: bolt_call_live_other)

lemma bolt_run_never_written:
  assumes "k \<notin> call_key ` set cs"
  shows "Bucket_Get (tiddler (bolt_run cs)) (k @ ''|1'') = None"
proof -
  have "Bucket_Get (tiddler (bolt_run cs)) (k @ ''|1'')
      = Bucket_Get (tiddler bolt_MustOpen) (k @ ''|1'')"
    unfolding bolt_run_def using assms by (rule bolt_foldl_live_other)
  also have "\<dots> = None"
    by (simp add: bolt_MustOpen_def Bucket_Get_def)
  finally show ?thesis .
qed

text \<open>The bolt and the flat-file \<^verbatim>\<open>Get\<close> answer \<^verbatim>\<open>ErrNotFound\<close> for a key without
  a live record.\<close>

lemma bolt_Get_never_written:
  "k \<notin> call_key ` set cs \<Longrightarrow> bolt_Get (bolt_run cs) k = Err ErrNotFound"
  by (simp add: bolt_Get_def bolt_run_never_written)

lemma flat_Get_no_text_file:
  "ioutil_ReadFile fs (filepath_Join (tiddlersPath s) (k @ ''.tid'')) = None \<Longrightarrow>
   flat_Get s fs k = Err ErrNotFound"
  by (simp add: flat_Get_def ioutil_ReadFile_def)

text \<open>The sqlite \<^verbatim>\<open>Get\<close> looks for the key anywhere in the metadata of any row:
  for the key \<^verbatim>\<open>title\<close>, never written, it returns the tiddler \<^verbatim>\<open>A\<close>.\<close>

lemma sqlite_Get_other_key:
  \<open>sqlite_Get (sqlite_run [CallPut (tiddlerA ''hello'')]) ''title''
     = Ok \<lparr>Key = [], Meta = ''{"title":"A"}'', Text = ''hello'', WithText = True\<rparr>\<close>
  by code_simp

text \<open>
  C2. \<^verbatim>\<open>Get(k)\<close> for a key that was never written returns \<^verbatim>\<open>store.ErrNotFound\<close> in
  every backend. The sqlite backend does not: on a fresh store \<^verbatim>\<open>Get("A")\<close>
  returns the \<^verbatim>\<open>sql.ErrNoRows\<close> of \<^verbatim>\<open>Scan\<close>.
\<close>

theorem sqlite_Get_never_written:
  "sqlite_Get (sqlite_run []) ''A'' = Err ErrNoRows"
  by code_simp

text \<open>
  C10. In the bolt backend, \<^verbatim>\<open>Delete(k)\<close> for a key \<open>k\<close> that no earlier \<^verbatim>\<open>Put\<close> or
  \<^verbatim>\<open>Delete\<close> named returns nil, and all the same leaves an empty metadata entry and
  an empty text entry for \<open>k\<close> in the live bucket and an empty history entry under
  \<open>k#1\<close>: the store after the call is not the store before it.
\<close>

theorem bolt_Delete_never_written:
  assumes "k \<notin> call_key ` set cs"
  shows "snd (bolt_Delete (bolt_run cs) k) = Ok ()
       \<and> Bucket_Get (tiddler (fst (bolt_Delete (bolt_run cs) k))) (k @ ''|1'') = Some []
       \<and> Bucket_Get (tiddler (fst (bolt_Delete (bolt_run cs) k))) (k @ ''|2'') = Some []
       \<and> Bucket_Get (tiddler_history (fst (bolt_Delete (bolt_run cs) k))) (k @ ''#1'') = Some []
       \<and> fst (bolt_Delete (bolt_run cs) k) \<noteq> bolt_run cs"
proof -
  let ?s = "bolt_run cs"
  have absent: "Bucket_Get (tiddler ?s) (k @ ''|1'') = None"
    using assms by (rule bolt_run_never_written)
  have r: "bolt_getLastRevision (tiddler ?s) (k @ ''|1'') = 1"
    using absent by (rule bolt_getLastRevision_absent)
  have a: "snd (bolt_Delete ?s k) = Ok ()"
    by (simp add: bolt_Delete_def Let_def)
  have b: "Bucket_Get (tiddler (fst (bolt_Delete ?s k))) (k @ ''|1'') = Some []"
    by (simp add: bolt_Delete_def Let_def Bucket_Get_Put)
  have c: "Bucket_Get (tiddler (fst (bolt_Delete ?s k))) (k @ ''|2'') = Some []"
    by (simp add: bolt_Delete_def Let_def Bucket_Get_Put)
  have d: "Bucket_Get (tiddler_history (fst (bolt_Delete ?s k))) (k @ ''#1'') = Some []"
    by (simp add: bolt_Delete_def Let_def Bucket_Get_Put r history_key_1)
  have e: "fst (bolt_Delete ?s k) \<noteq> ?s"
    using absent b by auto
  show ?thesis using a b c d e by blast
qed

theorem bolt_Delete_never_written_witness:
  "''B'' \<notin> call_key ` set [CallPut (tiddlerA ''hello''), CallDelete ''A'']
   \<and> snd (bolt_Delete (bolt_run [CallPut (tiddlerA ''hello''), CallDelete ''A'']) ''B'') = Ok ()
   \<and> Bucket_Get (tiddler_history
        (fst (bolt_Delete (bolt_run [CallPut (tiddlerA ''hello''), CallDelete ''A'']) ''B'')))
        ''B#1'' = Some []"
proof -
  have h: "''B'' \<notin> call_key ` set [CallPut (tiddlerA ''hello''), CallDelete ''A'']"
    by (simp add: tiddlerA_def)
  from bolt_Delete_never_written [OF h] show ?thesis
    using h by simp
qed

section \<open>Delete\<close>

text \<open>After a \<^verbatim>\<open>Delete(k)\<close> the bolt \<^verbatim>\<open>Get(k)\<close> finds the empty metadata entry, which
  is not nil, and returns a tiddler with empty metadata and a nil error, while the
  bolt \<^verbatim>\<open>All()\<close> skips the entry; the flat-file \<^verbatim>\<open>Get(k)\<close> returns
  \<^verbatim>\<open>ErrNotFound\<close>.\<close>

lemma bolt_Get_after_Delete:
  "bolt_Get (fst (bolt_Delete s k)) k = Ok \<lparr>Key = [], Meta = [], Text = [], WithText = True\<rparr>"
  by (simp add: bolt_Get_def bolt_Delete_def Let_def Bucket_Get_Put)

lemma bolt_All_after_Delete_example:
  "bolt_All (bolt_run [CallPut (tiddlerA ''hello''), CallDelete ''A'']) = Ok []"
  by code_simp

lemma map_of_filter_removed: "map_of (filter (\<lambda>f. fst f \<noteq> p) fs) p = None"
  by (induction fs) auto

lemma map_of_filter_None: "map_of fs p = None \<Longrightarrow> map_of (filter P fs) p = None"
  by (induction fs) (auto split: if_splits)

lemma os_Remove_gone: "os_Remove fs p = Some fs' \<Longrightarrow> map_of fs' p = None"
  by (auto simp: os_Remove_def map_of_filter_removed split: if_splits)

lemma os_Remove_still_gone:
  "os_Remove fs q = Some fs' \<Longrightarrow> map_of fs p = None \<Longrightarrow> map_of fs' p = None"
  by (auto simp: os_Remove_def map_of_filter_None split: if_splits)

lemma flat_Get_after_Delete:
  assumes "snd (flat_Delete s fs k) = Ok ()"
  shows "flat_Get s (fst (flat_Delete s fs k)) k = Err ErrNotFound"
proof -
  let ?tid = "filepath_Join (tiddlersPath s) (k @ ''.tid'')"
  let ?meta = "filepath_Join (tiddlersPath s) (k @ ''.meta'')"
  from assms obtain fs1 fs2 where
    r1: "os_Remove fs ?tid = Some fs1" and
    r2: "os_Remove fs1 ?meta = Some fs2" and
    f: "fst (flat_Delete s fs k) = fs2"
    by (auto simp: flat_Delete_def split: option.splits)
  from r1 have "map_of fs1 ?tid = None" by (rule os_Remove_gone)
  with r2 have "map_of fs2 ?tid = None" by (rule os_Remove_still_gone)
  then show ?thesis by (simp add: f flat_Get_def Let_def)
qed

text \<open>
  C3. After a successful \<^verbatim>\<open>Delete(k)\<close> of a key written before, \<^verbatim>\<open>Get(k)\<close> returns
  \<^verbatim>\<open>ErrNotFound\<close> and \<^verbatim>\<open>All()\<close> has no record for \<open>k\<close>. The sqlite backend does
  neither: after \<^verbatim>\<open>Put\<close> of the tiddler \<^verbatim>\<open>A\<close> and \<^verbatim>\<open>Delete("A")\<close>, which returns nil,
  \<^verbatim>\<open>Get("A")\<close> returns the tiddler and \<^verbatim>\<open>All()\<close> lists it.
\<close>

theorem sqlite_Delete_leaves_record:
  \<open>snd (sqlite_Delete (sqlite_run [CallPut (tiddlerA ''hello'')]) ''A'') = Ok ()
 \<and> sqlite_Get (sqlite_run [CallPut (tiddlerA ''hello''), CallDelete ''A'']) ''A''
     = Ok \<lparr>Key = [], Meta = ''{"title":"A"}'', Text = ''hello'', WithText = True\<rparr>
 \<and> sqlite_All (sqlite_run [CallPut (tiddlerA ''hello''), CallDelete ''A''])
     = Ok [\<lparr>Key = [], Meta = ''{"title":"A"}'', Text = [], WithText = False\<rparr>]\<close>
  by code_simp

text \<open>
  C7, as amended. For a key without a live record \<^verbatim>\<open>Delete\<close> returns
  \<^verbatim>\<open>store.ErrNotFound\<close> in no backend: the bolt and the sqlite \<^verbatim>\<open>Delete\<close> return nil
  (for that key as for every other), and the flat-file \<^verbatim>\<open>Delete\<close> returns the
  \<^verbatim>\<open>*os.PathError\<close> of \<^verbatim>\<open>os.Remove\<close>.
\<close>

theorem Delete_no_live_record:
  "snd (bolt_Delete s k) = Ok ()
 \<and> snd (sqlite_Delete d k) = Ok ()
 \<and> (flat_Get f fs k = Err ErrNotFound \<longrightarrow> snd (flat_Delete f fs k) = Err PathError)"
  by (auto simp: bolt_Delete_def sqlite_Delete_def Let_def flat_Get_def flat_Delete_def
        os_Remove_def ioutil_ReadFile_def split: option.splits if_splits)

theorem Delete_no_live_record_witness:
  "flat_Get widdly_db [] ''A'' = Err ErrNotFound
 \<and> snd (flat_Delete widdly_db [] ''A'') = Err PathError
 \<and> snd (bolt_Delete bolt_MustOpen ''A'') = Ok ()
 \<and> snd (sqlite_Delete sqlite_MustOpen ''A'') = Ok ()"
proof -
  have g: "flat_Get widdly_db [] ''A'' = Err ErrNotFound"
    by code_simp
  from Delete_no_live_record [of bolt_MustOpen "''A''" sqlite_MustOpen widdly_db "[]"] g
  show ?thesis by blast
qed

text \<open>C7 as the specification states it fails on a fresh bolt store: \<^verbatim>\<open>Get("A")\<close>
  reports that there is no live record, and \<^verbatim>\<open>Delete("A")\<close> returns nil.\<close>

theorem Delete_missing_counterexample:
  "bolt_Get bolt_MustOpen ''A'' = Err ErrNotFound
 \<and> snd (bolt_Delete bolt_MustOpen ''A'') = Ok ()"
  by code_simp

section \<open>Put and Get\<close>

text \<open>In the bolt backend the tiddler that \<^verbatim>\<open>Get\<close> returns after a successful
  \<^verbatim>\<open>Put\<close> has the text of the call, and as metadata the object of the call with the
  assigned revision as its member \<^verbatim>\<open>revision\<close>.\<close>

lemma bolt_Get_after_Put:
  assumes "bolt_Put s t = (s', Ok r)"
  shows "\<exists>m. json_Unmarshal (Meta t) = Inr (Some m)
           \<and> bolt_Get s' (Key t) =
               Ok \<lparr>Key = [], Meta = json_Marshal (Some (map_assign ''revision'' (JInt r) m)),
                   Text = Text t, WithText = True\<rparr>"
  using assms
  by (auto simp: bolt_Put_def bolt_Get_def Let_def Bucket_Get_Put
           split: sum.splits option.splits)

text \<open>For the tiddler \<^verbatim>\<open>A\<close> on a fresh store, with its projection:\<close>

lemma bolt_Get_projection_example:
  \<open>snd (bolt_Put (bolt_run []) (tiddlerA ''hello'')) = Ok 1
 \<and> bolt_Get (bolt_run [CallPut (tiddlerA ''hello'')]) ''A''
     = Ok \<lparr>Key = [], Meta = ''{"revision":1,"title":"A"}'', Text = ''hello'', WithText = True\<rparr>
 \<and> MarshalJSON
       \<lparr>Key = [], Meta = ''{"revision":1,"title":"A"}'', Text = ''hello'', WithText = True\<rparr>
     = Ok ''{"revision":1,"text":"hello","title":"A"}''\<close>
  by code_simp

text \<open>
  C4. After \<^verbatim>\<open>rev1 := Put(t)\<close> the projection of the tiddler that \<^verbatim>\<open>Get(t.Key)\<close>
  returns has \<^verbatim>\<open>text\<close> equal to \<^verbatim>\<open>t.Text\<close> and \<^verbatim>\<open>revision\<close> equal to \<^verbatim>\<open>rev1\<close>. In the
  sqlite backend it has no \<^verbatim>\<open>revision\<close> at all: \<^verbatim>\<open>Put\<close> of the tiddler \<^verbatim>\<open>A\<close> on a
  fresh store returns 0, and the projection of what \<^verbatim>\<open>Get("A")\<close> returns is the
  object with the two members \<^verbatim>\<open>text\<close> and \<^verbatim>\<open>title\<close>.
\<close>

theorem sqlite_Get_projection:
  \<open>snd (sqlite_Put (sqlite_run []) (tiddlerA ''hello'')) = Ok 0
 \<and> sqlite_Get (sqlite_run [CallPut (tiddlerA ''hello'')]) ''A''
     = Ok \<lparr>Key = [], Meta = ''{"title":"A"}'', Text = ''hello'', WithText = True\<rparr>
 \<and> MarshalJSON \<lparr>Key = [], Meta = ''{"title":"A"}'', Text = ''hello'', WithText = True\<rparr>
     = Ok ''{"text":"hello","title":"A"}''
 \<and> json_Unmarshal ''{"text":"hello","title":"A"}''
     = Inr (Some [(''text'', JString ''hello''), (''title'', JString ''A'')])\<close>
  by code_simp

section \<open>All\<close>

text \<open>In every backend a tiddler of \<^verbatim>\<open>All()\<close> has \<^verbatim>\<open>WithText\<close> set exactly when its
  metadata contain the bytes of the tag literal, and no text when the flag is not
  set.\<close>

lemma bolt_All_loop_listed:
  "t \<in> set (bolt_All_loop b) \<Longrightarrow> \<exists>m x. t = listed m x"
  by (induction b rule: bolt_All_loop.induct) (auto split: if_splits)

lemma flat_listed_flag:
  "WithText (flat_listed s fs name) = bytes_Contains (Meta (flat_listed s fs name)) macro_tag"
  "\<not> WithText (flat_listed s fs name) \<Longrightarrow> Text (flat_listed s fs name) = []"
  by (auto simp: flat_listed_def Let_def split: if_splits)

lemma All_flag:
  assumes "bolt_All b = Ok ts \<or> sqlite_All d = Ok ts \<or> flat_All rx f fs = Ok ts"
      and "t \<in> set ts"
  shows "WithText t = bytes_Contains (Meta t) macro_tag \<and> (\<not> WithText t \<longrightarrow> Text t = [])"
proof -
  from assms consider (b) "t \<in> set (bolt_All_loop (tiddler b))"
    | (s) "t \<in> set (map (\<lambda>r. listed (meta r) (content r)) (rows d))"
    | (f) "t \<in> set (map (flat_listed f fs) (checkExt rx fs (tiddlersPath f) ''.meta''))"
    by (auto simp: bolt_All_def sqlite_All_def flat_All_def)
  then show ?thesis
  proof cases
    case b
    then obtain m x where "t = listed m x" using bolt_All_loop_listed by blast
    then show ?thesis by (simp add: listed_def)
  next
    case s
    then obtain m x where "t = listed m x" by auto
    then show ?thesis by (simp add: listed_def)
  next
    case f
    then obtain name where "t = flat_listed f fs name" by auto
    then show ?thesis using flat_listed_flag by simp
  qed
qed

text \<open>The bolt \<^verbatim>\<open>All()\<close> returns the macro \<^verbatim>\<open>M\<close> fat, with its text, and the tiddler
  \<^verbatim>\<open>A\<close> skinny.\<close>

lemma bolt_All_example:
  \<open>bolt_All (bolt_run [CallPut macroM, CallPut (tiddlerA ''hello'')])
     = Ok [\<lparr>Key = [], Meta = ''{"revision":1,"title":"A"}'', Text = [], WithText = False\<rparr>,
           \<lparr>Key = [], Meta = ''{"revision":1,"tags":"$:/tags/Macro"}'', Text = ''body'',
              WithText = True\<rparr>]\<close>
  by code_simp

text \<open>The cursor of the bolt \<^verbatim>\<open>All()\<close> takes the entries two by two. The entries
  of the title \<^verbatim>\<open>M|1\<close> lie between the two entries of the title \<^verbatim>\<open>M\<close>, and then the
  loop pairs the metadata of \<^verbatim>\<open>M\<close> with the metadata of \<^verbatim>\<open>M|1\<close> as its text, and
  the text of \<^verbatim>\<open>M|1\<close> with the text of \<^verbatim>\<open>M\<close>.\<close>

lemma bolt_All_interleaved:
  \<open>bolt_All (bolt_run [CallPut macroM, CallPut tiddlerM1])
     = Ok [\<lparr>Key = [], Meta = ''{"revision":1,"tags":"$:/tags/Macro"}'',
              Text = ''{"revision":1,"title":"M|1"}'', WithText = True\<rparr>,
           \<lparr>Key = [], Meta = ''other'', Text = [], WithText = False\<rparr>]\<close>
  by code_simp

text \<open>
  C5. \<^verbatim>\<open>All()\<close> returns a document fat, with its text, exactly when its metadata
  contain the tag literal, and skinny otherwise. The flat-file backend sets the flag
  by that test but does not return the text: after \<^verbatim>\<open>Put\<close> of the macro \<^verbatim>\<open>M\<close> with
  the text \<^verbatim>\<open>body\<close>, which \<^verbatim>\<open>Get("M")\<close> returns, \<^verbatim>\<open>All()\<close> lists \<^verbatim>\<open>M\<close> with
  \<^verbatim>\<open>WithText\<close> set and an empty text.
\<close>

theorem flat_All_macro_without_text:
  \<open>snd (flat_Put regexp_MatchString widdly_db [] macroM) = Ok 1
 \<and> flat_Get widdly_db (flat_run widdly_db [CallPut macroM]) ''M''
     = Ok \<lparr>Key = [], Meta = ''{"tags":"$:/tags/Macro"}'', Text = ''body'', WithText = True\<rparr>
 \<and> flat_All regexp_MatchString widdly_db (flat_run widdly_db [CallPut macroM])
     = Ok [\<lparr>Key = [], Meta = ''{"tags":"$:/tags/Macro"}'', Text = [], WithText = True\<rparr>]\<close>
  by code_simp

section \<open>History\<close>

lemma bolt_Put_Ok:
  assumes "bolt_Put s t = (s', Ok r)"
  shows "\<exists>m. json_Unmarshal (Meta t) = Inr (Some m)
           \<and> r = bolt_getLastRevision (tiddler s) (Key t @ ''|1'')
           \<and> tiddler_history s' =
               Bucket_Put (tiddler_history s) (history_key (Key t) r)
                 (json_Marshal (Some (map_assign ''text'' (JString (Text t))
                    (map_assign ''revision'' (JInt r) m))))"
  using assms
  by (auto simp: bolt_Put_def Let_def split: sum.splits option.splits)

text \<open>In the bolt backend a successful \<^verbatim>\<open>Put\<close> and a successful \<^verbatim>\<open>Delete\<close> each
  write one history entry, under the title and the revision that the call assigned
  (the snapshot of metadata, revision and text for \<^verbatim>\<open>Put\<close>, the empty value for
  \<^verbatim>\<open>Delete\<close>), and leave the entry under every other history key as it was.\<close>

lemma bolt_history_written:
  "(bolt_Put s t = (s1, Ok r) \<longrightarrow>
      r = bolt_getLastRevision (tiddler s) (Key t @ ''|1'')
    \<and> (\<exists>m. json_Unmarshal (Meta t) = Inr (Some m)
           \<and> Bucket_Get (tiddler_history s1) (history_key (Key t) r) =
               Some (json_Marshal (Some (map_assign ''text'' (JString (Text t))
                       (map_assign ''revision'' (JInt r) m)))))
    \<and> (\<forall>h. h \<noteq> history_key (Key t) r \<longrightarrow>
           Bucket_Get (tiddler_history s1) h = Bucket_Get (tiddler_history s) h))
 \<and> (bolt_Delete s k = (s2, Ok ()) \<longrightarrow>
      Bucket_Get (tiddler_history s2)
        (history_key k (bolt_getLastRevision (tiddler s) (k @ ''|1''))) = Some []
    \<and> (\<forall>h. h \<noteq> history_key k (bolt_getLastRevision (tiddler s) (k @ ''|1'')) \<longrightarrow>
           Bucket_Get (tiddler_history s2) h = Bucket_Get (tiddler_history s) h))"
proof (intro conjI impI)
  assume p: "bolt_Put s t = (s1, Ok r)"
  from bolt_Put_Ok [OF p] obtain m where
    m: "json_Unmarshal (Meta t) = Inr (Some m)" and
    r: "r = bolt_getLastRevision (tiddler s) (Key t @ ''|1'')" and
    h: "tiddler_history s1 =
          Bucket_Put (tiddler_history s) (history_key (Key t) r)
            (json_Marshal (Some (map_assign ''text'' (JString (Text t))
               (map_assign ''revision'' (JInt r) m))))"
    by blast
  show "r = bolt_getLastRevision (tiddler s) (Key t @ ''|1'')" by (rule r)
  show "\<exists>m. json_Unmarshal (Meta t) = Inr (Some m)
           \<and> Bucket_Get (tiddler_history s1) (history_key (Key t) r) =
               Some (json_Marshal (Some (map_assign ''text'' (JString (Text t))
                       (map_assign ''revision'' (JInt r) m))))"
    using m h by (auto simp: Bucket_Get_Put)
  show "\<forall>h. h \<noteq> history_key (Key t) r \<longrightarrow>
           Bucket_Get (tiddler_history s1) h = Bucket_Get (tiddler_history s) h"
    using h by (simp add: Bucket_Get_Put)
next
  assume d: "bolt_Delete s k = (s2, Ok ())"
  then have h: "tiddler_history s2 =
      Bucket_Put (tiddler_history s)
        (history_key k (bolt_getLastRevision (tiddler s) (k @ ''|1''))) []"
    by (auto simp: bolt_Delete_def Let_def)
  show "Bucket_Get (tiddler_history s2)
        (history_key k (bolt_getLastRevision (tiddler s) (k @ ''|1''))) = Some []"
    using h by (simp add: Bucket_Get_Put)
  show "\<forall>h. h \<noteq> history_key k (bolt_getLastRevision (tiddler s) (k @ ''|1'')) \<longrightarrow>
           Bucket_Get (tiddler_history s2) h = Bucket_Get (tiddler_history s) h"
    using h by (simp add: Bucket_Get_Put)
qed

lemma bolt_history_written_example:
  "bolt_Put (bolt_run [CallPut (tiddlerA ''hello'')]) (tiddlerA ''world'')
     = (bolt_run [CallPut (tiddlerA ''hello''), CallPut (tiddlerA ''world'')], Ok 2)
 \<and> Bucket_Get (tiddler_history
       (bolt_run [CallPut (tiddlerA ''hello''), CallPut (tiddlerA ''world'')])) ''A#1''
     = Bucket_Get (tiddler_history (bolt_run [CallPut (tiddlerA ''hello'')])) ''A#1''
 \<and> bolt_Delete (bolt_run [CallPut (tiddlerA ''hello'')]) ''A''
     = (bolt_run [CallPut (tiddlerA ''hello''), CallDelete ''A''], Ok ())
 \<and> Bucket_Get (tiddler_history
       (bolt_run [CallPut (tiddlerA ''hello''), CallDelete ''A''])) ''A#2'' = Some []"
proof -
  let ?s = "bolt_run [CallPut (tiddlerA ''hello'')]"
  let ?p = "bolt_run [CallPut (tiddlerA ''hello''), CallPut (tiddlerA ''world'')]"
  let ?d = "bolt_run [CallPut (tiddlerA ''hello''), CallDelete ''A'']"
  have r: "snd (bolt_Put ?s (tiddlerA ''world'')) = Ok 2"
    by code_simp
  have p: "bolt_Put ?s (tiddlerA ''world'') = (?p, Ok 2)"
    using r by (simp add: bolt_run_def prod_eq_iff)
  have d: "bolt_Delete ?s ''A'' = (?d, Ok ())"
    by (simp add: bolt_run_def prod_eq_iff bolt_Delete_def Let_def)
  have n: "''A#1'' \<noteq> history_key (Key (tiddlerA ''world'')) 2"
    by code_simp
  have l: "history_key ''A'' (bolt_getLastRevision (tiddler ?s) (''A'' @ ''|1'')) = ''A#2''"
    by code_simp
  note w = bolt_history_written
    [where s = ?s and t = "tiddlerA ''world''" and ?s1.0 = ?p and r = 2
       and k = "''A''" and ?s2.0 = ?d]
  from w p n have a: "Bucket_Get (tiddler_history ?p) ''A#1'' = Bucket_Get (tiddler_history ?s) ''A#1''"
    by blast
  from w d l have b: "Bucket_Get (tiddler_history ?d) ''A#2'' = Some []"
    by metis
  show ?thesis using p a d b by blast
qed

text \<open>The flat-file backend takes the next revision from the names of the history
  files, which its \<^verbatim>\<open>Delete\<close> leaves alone (it adds none either): after \<^verbatim>\<open>Put\<close>
  and \<^verbatim>\<open>Delete\<close> of \<^verbatim>\<open>A\<close> the next \<^verbatim>\<open>Put\<close> returns 2 and writes \<open>A#2\<close> beside
  \<open>A#1\<close>, which keeps its content.\<close>

lemma flat_history_after_Delete_example:
  \<open>snd (flat_Delete widdly_db (flat_run widdly_db [CallPut (tiddlerA ''hello'')]) ''A'') = Ok ()
 \<and> dir_names (flat_run widdly_db [CallPut (tiddlerA ''hello''), CallDelete ''A''])
       (tiddlerHistoryPath widdly_db) = [''A#1'']
 \<and> snd (flat_Put regexp_MatchString widdly_db
        (flat_run widdly_db [CallPut (tiddlerA ''hello''), CallDelete ''A'']) (tiddlerA ''world''))
     = Ok 2
 \<and> dir_names
       (flat_run widdly_db
          [CallPut (tiddlerA ''hello''), CallDelete ''A'', CallPut (tiddlerA ''world'')])
       (tiddlerHistoryPath widdly_db) = [''A#1'', ''A#2'']
 \<and> ioutil_ReadFile
       (flat_run widdly_db
          [CallPut (tiddlerA ''hello''), CallDelete ''A'', CallPut (tiddlerA ''world'')])
       ''widdly.db/tiddlerHistory/A#1''
     = ioutil_ReadFile (flat_run widdly_db [CallPut (tiddlerA ''hello'')])
         ''widdly.db/tiddlerHistory/A#1''\<close>
  by code_simp

text \<open>For a title with a \<^verbatim>\<open>#\<close> the flat-file \<^verbatim>\<open>getLastRevision\<close> takes the part
  of the file name after the first \<^verbatim>\<open>#\<close>, which is no number, so every \<^verbatim>\<open>Put\<close> of
  that title returns 1.\<close>

lemma flat_Put_hash_title_example:
  \<open>snd (flat_Put regexp_MatchString widdly_db []
        \<lparr>Key = ''a#b'', Meta = ''{}'', Text = ''x'', WithText = False\<rparr>) = Ok 1
 \<and> snd (flat_Put regexp_MatchString widdly_db
        (flat_run widdly_db [CallPut \<lparr>Key = ''a#b'', Meta = ''{}'', Text = ''x'', WithText = False\<rparr>])
        \<lparr>Key = ''a#b'', Meta = ''{}'', Text = ''y'', WithText = False\<rparr>) = Ok 1\<close>
  by code_simp

text \<open>
  C6. Every successful \<^verbatim>\<open>Put\<close> and every successful \<^verbatim>\<open>Delete\<close> appends one new
  history entry under the title and the assigned revision, and no call changes or
  removes a history entry that exists. The bolt backend does change one: its
  \<^verbatim>\<open>Delete\<close> empties the metadata entry in which the revision is kept, so after
  \<^verbatim>\<open>Put\<close> and \<^verbatim>\<open>Delete\<close> of \<^verbatim>\<open>A\<close> the next \<^verbatim>\<open>Put\<close> is given revision 1 again
  and replaces the history entry \<open>A#1\<close> of the first \<^verbatim>\<open>Put\<close>.
\<close>

theorem bolt_history_entry_replaced:
  \<open>snd (bolt_Put (bolt_run []) (tiddlerA ''hello'')) = Ok 1
 \<and> Bucket_Get (tiddler_history (bolt_run [CallPut (tiddlerA ''hello'')])) ''A#1''
     = Some ''{"revision":1,"text":"hello","title":"A"}''
 \<and> snd (bolt_Delete (bolt_run [CallPut (tiddlerA ''hello'')]) ''A'') = Ok ()
 \<and> snd (bolt_Put (bolt_run [CallPut (tiddlerA ''hello''), CallDelete ''A''])
        (tiddlerA ''world'')) = Ok 1
 \<and> Bucket_Get (tiddler_history
       (bolt_run [CallPut (tiddlerA ''hello''), CallDelete ''A'', CallPut (tiddlerA ''world'')]))
       ''A#1''
     = Some ''{"revision":1,"text":"world","title":"A"}''\<close>
  by code_simp

section \<open>The JSON projection and malformed metadata\<close>

text \<open>The projection that the test \<^verbatim>\<open>TestGetTiddler\<close> of the repository expects.\<close>

lemma MarshalJSON_TestGetTiddler:
  \<open>MarshalJSON \<lparr>Key = ''tiddler2'', Meta = ''{"author":"bradfitz"}'',
                 Text = ''text of the second tiddler'', WithText = True\<rparr>
     = Ok ''{"author":"bradfitz","text":"text of the second tiddler"}''\<close>
  by code_simp

text \<open>Metadata with a number outside the range of \<^verbatim>\<open>float64\<close> are rejected.\<close>

lemma json_Unmarshal_number_out_of_range:
  \<open>json_Unmarshal ''{"n":1e400}'' = Inl UnmarshalTypeError\<close>
  by code_simp

lemma MarshalJSON_skinny: "\<not> WithText t \<Longrightarrow> MarshalJSON t = Ok (Meta t)"
  by (simp add: MarshalJSON_def)

lemma MarshalJSON_fat:
  "WithText t \<Longrightarrow> json_Unmarshal (Meta t) = Inr (Some js) \<Longrightarrow>
   MarshalJSON t = Ok (json_Marshal (Some (map_assign ''text'' (JString (Text t)) js)))"
  by (simp add: MarshalJSON_def)

lemma MarshalJSON_Err_iff:
  "MarshalJSON t = Err e \<longleftrightarrow> WithText t \<and> json_Unmarshal (Meta t) = Inl e"
  by (auto simp: MarshalJSON_def split: sum.splits option.splits)

lemma MarshalJSON_Panic_iff:
  "MarshalJSON t = Panic \<longleftrightarrow> WithText t \<and> json_Unmarshal (Meta t) = Inr None"
  by (auto simp: MarshalJSON_def split: sum.splits option.splits)

text \<open>
  C8. \<^verbatim>\<open>MarshalJSON\<close> returns \<^verbatim>\<open>Meta\<close> as it is for a skinny tiddler, the metadata
  object with \<^verbatim>\<open>text\<close> set for a fat one, and an error exactly when the tiddler is
  fat and \<^verbatim>\<open>Meta\<close> is not a JSON object. For a fat tiddler with the metadata
  \<^verbatim>\<open>null\<close>, which is no JSON object, it returns no error: it panics.
\<close>

theorem MarshalJSON_null_panics:
  "MarshalJSON nullA = Panic"
  by code_simp

text \<open>A \<^verbatim>\<open>Put\<close> whose metadata \<^verbatim>\<open>json.Unmarshal\<close> rejects returns that error and
  leaves the store as it was, in every backend.\<close>

lemma Put_rejected_meta:
  assumes "json_Unmarshal (Meta t) = Inl e"
  shows "bolt_Put b t = (b, Err e)" and "sqlite_Put d t = (d, Err e)"
    and "flat_Put rx f fs t = (fs, Err e)"
  using assms by (simp_all add: bolt_Put_def sqlite_Put_def flat_Put_def)

text \<open>
  C9. \<^verbatim>\<open>Put(t)\<close> returns an error and writes nothing when \<^verbatim>\<open>t.Meta\<close> is not a JSON
  object, in every backend. For the metadata \<^verbatim>\<open>null\<close> the sqlite \<^verbatim>\<open>Put\<close> inserts a
  row and the flat-file \<^verbatim>\<open>Put\<close> writes its three files, both returning a revision
  and a nil error; the bolt \<^verbatim>\<open>Put\<close> panics inside its transaction, which is rolled
  back.
\<close>

theorem Put_null_meta:
  \<open>sqlite_Put sqlite_MustOpen nullA
     = (\<lparr>rows = [\<lparr>rowid = 1, meta = ''null'', content = ''hello'', revision = 0\<rparr>],
         sequence = 1\<rparr>, Ok 0)
 \<and> flat_Put regexp_MatchString widdly_db [] nullA
     = ([(''widdly.db/tiddlerHistory/A#1'', ''null''),
         (''widdly.db/tiddlers/A.meta'', ''null''),
         (''widdly.db/tiddlers/A.tid'', ''hello'')], Ok 1)
 \<and> bolt_Put bolt_MustOpen nullA = (bolt_MustOpen, Panic)\<close>
  by code_simp

end
